theory Spec2Isabelle
  imports Main "HOL-Library.Word"
begin

section \<open>JavaScript values used by the sources\<close>

text \<open>
  The sources are TypeScript. Hex strings (\<open>Hex\<close>, \<open>Address\<close>) are JavaScript strings and
  are modelled as \<open>string\<close>; the code works on their characters (\<open>slice\<close>, \<open>split\<close>,
  \<open>toLowerCase\<close>), so the model does too. A character of a \<open>string\<close> stands for a UTF-16
  code unit below 256 (the Latin-1 range, which holds every character of a hex string, an
  address, a version and a decimal number); the library functions below are modelled on
  that range. An exception is a value of \<open>exn\<close>, which carries its \<open>message\<close>: \<open>Error\<close> is
  thrown by the sources, \<open>SyntaxError\<close> and \<open>TypeError\<close> by the JavaScript engine (with the
  message texts of V8, the engine of Node.js), \<open>LibError\<close> by the viem library. A function
  that can throw returns \<open>exn + 'a\<close>.
\<close>

datatype exn =
  Error string
  | SyntaxError string
  | TypeError string
  | LibError string

text \<open>
  A JavaScript number, as far as the sources produce one: \<open>NaN\<close>, a non-negative integer
  value, or \<open>Infinity\<close>. (No source path modelled here yields a negative or fractional
  number.)
\<close>

datatype jsnum = NaN | Num nat | Infinity

fun gt_js :: "jsnum \<Rightarrow> jsnum \<Rightarrow> bool" where
  "gt_js (Num a) (Num b) = (a > b)"
| "gt_js Infinity (Num b) = True"
| "gt_js _ _ = False"

definition lt_js :: "jsnum \<Rightarrow> jsnum \<Rightarrow> bool" where
  "lt_js a b = gt_js b a"

text \<open>\<open>x || 0\<close> on a number that may be \<open>undefined\<close>: \<open>undefined\<close>, \<open>NaN\<close> and \<open>0\<close> are falsy.\<close>

fun orZero :: "jsnum option \<Rightarrow> jsnum" where
  "orZero None = Num 0"
| "orZero (Some NaN) = Num 0"
| "orZero (Some (Num n)) = Num n"
| "orZero (Some Infinity) = Infinity"

text \<open>\<open>xs[i]\<close> on a JavaScript array: \<open>undefined\<close> out of range.\<close>

definition at_js :: "'a list \<Rightarrow> nat \<Rightarrow> 'a option" where
  "at_js xs i = (if i < length xs then Some (xs ! i) else None)"

text \<open>
  Rounding of a non-negative integer to the nearest IEEE double (ties to even), which is
  what \<open>Number\<close> and \<open>parseInt\<close> return: exact below \<open>2^53\<close>, \<open>Infinity\<close> from \<open>2^1024\<close> on.
\<close>

fun bitLength :: "nat \<Rightarrow> nat" where
  "bitLength n = (if n = 0 then 0 else Suc (bitLength (n div 2)))"

declare bitLength.simps [simp del]

definition toDouble :: "nat \<Rightarrow> jsnum" where
  "toDouble n =
     (if n < 2 ^ 53 then Num n
      else let e = bitLength n - 53;
               q = n div 2 ^ e;
               r = n mod 2 ^ e;
               h = 2 ^ (e - 1);
               q' = (if r > h \<or> (r = h \<and> odd q) then q + 1 else q);
               m = q' * 2 ^ e
           in if m \<ge> 2 ^ 1024 then Infinity else Num m)"

definition isDigit :: "char \<Rightarrow> bool" where
  "isDigit c = (let n = (of_char c :: nat) in 48 \<le> n \<and> n \<le> 57)"

definition digitVal :: "char \<Rightarrow> nat" where
  "digitVal c = (of_char c :: nat) - 48"

text \<open>The value of a string of decimal digits, most significant first.\<close>

fun decimalValue :: "nat \<Rightarrow> string \<Rightarrow> nat" where
  "decimalValue acc [] = acc"
| "decimalValue acc (c # cs) = decimalValue (acc * 10 + digitVal c) cs"

text \<open>
  \<open>Number(s)\<close> on the pieces of a version string. The empty string is \<open>0\<close>, a string of
  decimal digits is its value rounded to a double, and any other string is read as \<open>NaN\<close>.
  The last case covers every piece that JavaScript cannot read (\<open>x\<close>, \<open>0+L2\<close>, \<open>L2\<close>); the
  literals that JavaScript accepts beyond plain digit strings (surrounding white space, a
  sign, a fraction, an exponent, \<open>0x\<close>/\<open>0o\<close>/\<open>0b\<close> prefixes, \<open>Infinity\<close>) are not version
  components and are outside this model. The statements below that name a component
  unreadable do so through \<open>isDigits\<close> and \<open>unreadable\<close>, on which JavaScript agrees with
  this definition.
\<close>

definition Number_js :: "string \<Rightarrow> jsnum" where
  "Number_js s =
     (if s = [] then Num 0
      else if list_all isDigit s then toDouble (decimalValue 0 s)
      else NaN)"

text \<open>\<open>s.split(c)\<close> for a one-character separator: always at least one piece.\<close>

fun split_js :: "char \<Rightarrow> string \<Rightarrow> string list" where
  "split_js sep [] = [[]]"
| "split_js sep (c # cs) =
     (if c = sep then [] # split_js sep cs
      else (case split_js sep cs of
              [] \<Rightarrow> [[c]]
            | p # ps \<Rightarrow> (c # p) # ps))"


text \<open>
  \<open>toLowerCase\<close>: the capital letters below 256 are \<open>A\<close> to \<open>Z\<close> and the Latin-1 capitals
  \<open>U+00C0\<close> to \<open>U+00DE\<close> (\<open>U+00D7\<close>, the multiplication sign, is none); each has its small
  letter 32 places up.
\<close>

definition toLowerChar :: "char \<Rightarrow> char" where
  "toLowerChar c =
     (let n = (of_char c :: nat)
      in if (65 \<le> n \<and> n \<le> 90) \<or> (192 \<le> n \<and> n \<le> 222 \<and> n \<noteq> 215) then char_of (n + 32)
         else c)"

definition toLowerCase :: "string \<Rightarrow> string" where
  "toLowerCase s = map toLowerChar s"

definition startsWith :: "string \<Rightarrow> string \<Rightarrow> bool" where
  "startsWith s p = (take (length p) s = p)"

definition endsWith :: "string \<Rightarrow> string \<Rightarrow> bool" where
  "endsWith s p = (length p \<le> length s \<and> drop (length s - length p) s = p)"

text \<open>\<open>s.includes(sub)\<close>.\<close>

fun includes_js :: "string \<Rightarrow> string \<Rightarrow> bool" where
  "includes_js [] sub = (sub = [])"
| "includes_js (c # cs) sub = (startsWith (c # cs) sub \<or> includes_js cs sub)"

text \<open>\<open>xs.join(sep)\<close>.\<close>

fun join_js :: "string \<Rightarrow> string list \<Rightarrow> string" where
  "join_js sep [] = []"
| "join_js sep [x] = x"
| "join_js sep (x # y # ys) = x @ sep @ join_js sep (y # ys)"

text \<open>
  \<open>s.slice(start, end)\<close> with a numeric \<open>start\<close>; \<open>end\<close> may be \<open>NaN\<close>, which
  \<open>slice\<close> reads as \<open>0\<close>. Both bounds are clamped to the length; the result is empty when
  \<open>end \<le> start\<close>. Nothing is thrown out of range.
\<close>

definition slice_js :: "string \<Rightarrow> nat \<Rightarrow> jsnum \<Rightarrow> string" where
  "slice_js s start fin =
     (let e = (case fin of NaN \<Rightarrow> 0 | Num n \<Rightarrow> min n (length s) | Infinity \<Rightarrow> length s)
      in take (e - start) (drop start s))"

fun add_js :: "jsnum \<Rightarrow> jsnum \<Rightarrow> jsnum" where
  "add_js (Num a) (Num b) = Num (a + b)"
| "add_js NaN _ = NaN"
| "add_js _ NaN = NaN"
| "add_js _ _ = Infinity"

text \<open>\<open>x * 2\<close>. (Doubling a double below \<open>2^1023\<close> is exact.)\<close>

fun twice_js :: "jsnum \<Rightarrow> jsnum" where
  "twice_js (Num a) = (if 2 * a \<ge> 2 ^ 1024 then Infinity else Num (2 * a))"
| "twice_js NaN = NaN"
| "twice_js Infinity = Infinity"

definition hexDigitVal :: "char \<Rightarrow> nat option" where
  "hexDigitVal c =
     (let n = (of_char c :: nat) in
      if 48 \<le> n \<and> n \<le> 57 then Some (n - 48)
      else if 97 \<le> n \<and> n \<le> 102 then Some (n - 87)
      else if 65 \<le> n \<and> n \<le> 70 then Some (n - 55)
      else None)"

text \<open>The value of a digit string in a base up to 16; \<open>None\<close> on a character that is no digit of the base.\<close>

fun radixValue :: "nat \<Rightarrow> nat \<Rightarrow> string \<Rightarrow> nat option" where
  "radixValue b acc [] = Some acc"
| "radixValue b acc (c # cs) =
     (case hexDigitVal c of
        None \<Rightarrow> None
      | Some d \<Rightarrow> if d < b then radixValue b (acc * b + d) cs else None)"

definition parseDigits :: "nat \<Rightarrow> string \<Rightarrow> nat option" where
  "parseDigits b s = (if s = [] then None else radixValue b 0 s)"

text \<open>
  White space and line terminators (ECMAScript \<open>StrWhiteSpaceChar\<close>) below 256: tab, line
  feed, vertical tab, form feed, carriage return, space and the no-break space \<open>U+00A0\<close>.
\<close>

definition isWhiteSpace :: "char \<Rightarrow> bool" where
  "isWhiteSpace c = ((of_char c :: nat) \<in> set [9, 10, 11, 12, 13, 32, 160])"

definition trim_js :: "string \<Rightarrow> string" where
  "trim_js s = rev (dropWhile isWhiteSpace (rev (dropWhile isWhiteSpace s)))"

text \<open>
  \<open>BigInt(s)\<close> on a string (ECMAScript StringToBigInt): white space is trimmed, the empty
  string is \<open>0n\<close>, then an optionally signed decimal literal or an unsigned \<open>0x\<close>, \<open>0o\<close> or
  \<open>0b\<close> literal; anything else throws a SyntaxError that names the string.
\<close>

definition cannotConvert :: "string \<Rightarrow> exn" where
  "cannotConvert s = SyntaxError (''Cannot convert '' @ s @ '' to a BigInt'')"

definition BigInt_string :: "string \<Rightarrow> exn + int" where
  "BigInt_string s =
     (let t = trim_js s;
          lit = (\<lambda>b ds. case parseDigits b ds of None \<Rightarrow> Inl (cannotConvert s) | Some n \<Rightarrow> Inr (int n))
      in if t = [] then Inr 0
         else if startsWith t ''0x'' \<or> startsWith t ''0X'' then lit 16 (drop 2 t)
         else if startsWith t ''0o'' \<or> startsWith t ''0O'' then lit 8 (drop 2 t)
         else if startsWith t ''0b'' \<or> startsWith t ''0B'' then lit 2 (drop 2 t)
         else if startsWith t ''+'' then lit 10 (drop 1 t)
         else if startsWith t ''-'' then
           (case parseDigits 10 (drop 1 t) of None \<Rightarrow> Inl (cannotConvert s) | Some n \<Rightarrow> Inr (- int n))
         else lit 10 t)"

text \<open>A field typed \<open>bigint | string\<close>, and \<open>BigInt(x)\<close> on it.\<close>

datatype bigint_or_string = BigIntV int | StringV string

fun BigInt_js :: "bigint_or_string \<Rightarrow> exn + int" where
  "BigInt_js (BigIntV i) = Inr i"
| "BigInt_js (StringV s) = BigInt_string s"

text \<open>\<open>n.toString()\<close> on a bigint.\<close>

fun showNat :: "nat \<Rightarrow> string" where
  "showNat n =
     (if n < 10 then [char_of (48 + n)]
      else showNat (n div 10) @ [char_of (48 + n mod 10)])"

declare showNat.simps [simp del]

definition toString_bigint :: "int \<Rightarrow> string" where
  "toString_bigint i = (if i < 0 then CHR ''-'' # showNat (nat (- i)) else showNat (nat i))"

text \<open>
  \<open>parseInt(s, 16)\<close> on a string of hexadecimal digits: the value of the longest prefix
  of digits as a double, \<open>NaN\<close> when there is none. It is applied only to slices of the
  packed payload, which the decoder library renders in hexadecimal digits; leading white
  space, a sign and a \<open>0x\<close> prefix, which \<open>parseInt\<close> would skip, cannot occur there.
\<close>

definition parseInt16 :: "string \<Rightarrow> jsnum" where
  "parseInt16 s =
     (let ds = takeWhile (\<lambda>c. hexDigitVal c \<noteq> None) s
      in case parseDigits 16 ds of None \<Rightarrow> NaN | Some n \<Rightarrow> toDouble n)"

text \<open>Sequencing of computations that can throw.\<close>

definition andThen :: "exn + 'a \<Rightarrow> ('a \<Rightarrow> exn + 'b) \<Rightarrow> exn + 'b" where
  "andThen r f = (case r of Inl e \<Rightarrow> Inl e | Inr x \<Rightarrow> f x)"

section \<open>hash/version.ts\<close>

definition MIN_SAFE_VERSION :: string where
  "MIN_SAFE_VERSION = ''0.1.0''"

text \<open>\<open>version.split('+')[0] || ''\<close>: the text before the first \<open>+\<close>.\<close>

definition getVersion :: "string \<Rightarrow> string" where
  "getVersion version =
     (case at_js (split_js CHR ''+'' version) 0 of
        None \<Rightarrow> []
      | Some p \<Rightarrow> (if p = [] then [] else p))"

text \<open>
  The loop of \<open>compareVersions\<close>: \<open>i\<close> runs from \<open>0\<close> while
  \<open>i < Math.max(parts1.length, parts2.length)\<close>.
\<close>

function compareLoop :: "jsnum list \<Rightarrow> jsnum list \<Rightarrow> nat \<Rightarrow> int" where
  "compareLoop parts1 parts2 i =
     (if i < max (length parts1) (length parts2) then
        (let part1 = orZero (at_js parts1 i);
             part2 = orZero (at_js parts2 i)
         in if gt_js part1 part2 then 1
            else if lt_js part1 part2 then - 1
            else compareLoop parts1 parts2 (Suc i))
      else 0)"
  by pat_completeness auto
termination
  by (relation "measure (\<lambda>(p1, p2, i). max (length p1) (length p2) - i)") auto

declare compareLoop.simps [simp del]

definition compareVersions :: "string \<Rightarrow> string \<Rightarrow> int" where
  "compareVersions v1 v2 =
     compareLoop (map Number_js (split_js CHR ''.'' v1))
                 (map Number_js (split_js CHR ''.'' v2)) 0"

definition isVersionGte :: "string \<Rightarrow> string \<Rightarrow> bool" where
  "isVersionGte v1 v2 = (compareVersions v1 v2 \<ge> 0)"

definition isVersionLte :: "string \<Rightarrow> string \<Rightarrow> bool" where
  "isVersionLte v1 v2 = (compareVersions v1 v2 \<le> 0)"

definition isVersionLt :: "string \<Rightarrow> string \<Rightarrow> bool" where
  "isVersionLt v1 v2 = (compareVersions v1 v2 < 0)"

definition validateVersion :: "string \<Rightarrow> exn + unit" where
  "validateVersion version =
     (if version = [] then
        Inl (Error ''No Safe multisig contract found for the specified network. Please ensure that you have selected the correct network.'')
      else let cleanVersion = getVersion version in
        if \<not> isVersionGte cleanVersion MIN_SAFE_VERSION then
          Inl (Error (''Safe multisig version '' @ [CHR 0x22] @ cleanVersion @ [CHR 0x22]
                      @ '' is not supported!''))
        else Inr ())"


section \<open>hash/constants.ts\<close>

definition DOMAIN_SEPARATOR_TYPEHASH :: string where
  "DOMAIN_SEPARATOR_TYPEHASH = ''0x47e79534a245952e8b16893a336b85a3d9ea9fa8c573f3d803afb92a79469218''"

definition DOMAIN_SEPARATOR_TYPEHASH_OLD :: string where
  "DOMAIN_SEPARATOR_TYPEHASH_OLD = ''0x035aff83d86937d35b32e04f0ddc6ff469290eef2f1b692d8a815c89404d4749''"

definition SAFE_TX_TYPEHASH :: string where
  "SAFE_TX_TYPEHASH = ''0xbb8310d486368db6bd6f849402fdd73ad53d316b5a4b2644ad6efe0f941286d8''"

definition SAFE_TX_TYPEHASH_OLD :: string where
  "SAFE_TX_TYPEHASH_OLD = ''0x14d461bc7412367e924637b363c7bf29b8f47e2f84869f4426e5633d8af47b20''"

section \<open>types.ts: SafeTransactionData\<close>

record SafeTransactionData =
  tx_to :: string
  tx_value :: bigint_or_string
  tx_data :: string
  tx_operation :: int
  tx_safeTxGas :: bigint_or_string
  tx_baseGas :: bigint_or_string
  tx_gasPrice :: bigint_or_string
  tx_gasToken :: string
  tx_refundReceiver :: string
  tx_nonce :: bigint_or_string

section \<open>The hash calculator (hash/domain.ts, hash/message.ts, hash/safe-tx.ts)\<close>

text \<open>
  The hashing and ABI-encoding primitives are functions of the viem library, which is not
  part of the repository. They are parameters of the model: \<open>keccak256\<close> takes a hex
  string and \<open>encodeAbiParameters\<close> a list of typed values; either may throw (malformed
  hex, an invalid address, an integer out of range).
\<close>

datatype abi_arg =
  Bytes32 string
  | AddressArg string
  | Uint256 int
  | Uint8 int

type_synonym keccak_fn = "string \<Rightarrow> exn + string"
type_synonym encode_fn = "abi_arg list \<Rightarrow> exn + string"

text \<open>
  \<open>chainId\<close> is a JavaScript number in the source and \<open>BigInt(chainId)\<close> throws on a
  number that is no integer; the interface takes an integer chain id, so it is an \<open>int\<close>
  here and the conversion cannot fail.
\<close>

definition calculateDomainHash ::
  "keccak_fn \<Rightarrow> encode_fn \<Rightarrow> int \<Rightarrow> string \<Rightarrow> string \<Rightarrow> exn + string" where
  "calculateDomainHash keccak256 encodeAbiParameters chainId safeAddress version =
     (let cleanVersion = getVersion version in
      if isVersionLte cleanVersion ''1.2.0'' then
        andThen (encodeAbiParameters [Bytes32 DOMAIN_SEPARATOR_TYPEHASH_OLD, AddressArg safeAddress])
          keccak256
      else
        andThen (encodeAbiParameters
                   [Bytes32 DOMAIN_SEPARATOR_TYPEHASH, Uint256 chainId, AddressArg safeAddress])
          keccak256)"

definition calculateMessageHash ::
  "keccak_fn \<Rightarrow> encode_fn \<Rightarrow> SafeTransactionData \<Rightarrow> string \<Rightarrow> exn + string" where
  "calculateMessageHash keccak256 encodeAbiParameters txData version =
     (let cleanVersion = getVersion version in
      andThen (keccak256 (tx_data txData)) (\<lambda>dataHash.
      let safeTxTypeHash =
            (if isVersionLt cleanVersion ''1.0.0'' then SAFE_TX_TYPEHASH_OLD else SAFE_TX_TYPEHASH) in
      andThen (BigInt_js (tx_value txData)) (\<lambda>val.
      andThen (BigInt_js (tx_safeTxGas txData)) (\<lambda>safeTxGas.
      andThen (BigInt_js (tx_baseGas txData)) (\<lambda>baseGas.
      andThen (BigInt_js (tx_gasPrice txData)) (\<lambda>gasPrice.
      andThen (BigInt_js (tx_nonce txData)) (\<lambda>nonce.
      andThen (encodeAbiParameters
                 [Bytes32 safeTxTypeHash,
                  AddressArg (tx_to txData),
                  Uint256 val,
                  Bytes32 dataHash,
                  Uint8 (tx_operation txData),
                  Uint256 safeTxGas,
                  Uint256 baseGas,
                  Uint256 gasPrice,
                  AddressArg (tx_gasToken txData),
                  AddressArg (tx_refundReceiver txData),
                  Uint256 nonce])
        keccak256)))))))"

text \<open>
  viem's \<open>concat\<close> on hex strings: \<open>'0x' + values.map(x => x.replace('0x', '')).join('')\<close>;
  \<open>replace\<close> removes the first occurrence of \<open>0x\<close>.
\<close>

fun remove0x :: "string \<Rightarrow> string" where
  "remove0x [] = []"
| "remove0x [c] = [c]"
| "remove0x (c # d # cs) =
     (if c = CHR ''0'' \<and> d = CHR ''x'' then cs else c # remove0x (d # cs))"

definition concat_hex :: "string list \<Rightarrow> string" where
  "concat_hex vs = ''0x'' @ concat (map remove0x vs)"

record SafeTxHashResult =
  domainHash :: string
  messageHash :: string
  safeTxHash :: string

definition calculateSafeTxHash ::
  "keccak_fn \<Rightarrow> encode_fn \<Rightarrow> int \<Rightarrow> string \<Rightarrow> SafeTransactionData \<Rightarrow> string
     \<Rightarrow> exn + SafeTxHashResult" where
  "calculateSafeTxHash keccak256 encodeAbiParameters chainId safeAddress txData version =
     andThen (validateVersion version) (\<lambda>_.
     andThen (calculateDomainHash keccak256 encodeAbiParameters chainId safeAddress version) (\<lambda>dh.
     andThen (calculateMessageHash keccak256 encodeAbiParameters txData version) (\<lambda>mh.
     andThen (keccak256 (concat_hex [''0x1901'', dh, mh])) (\<lambda>h.
     Inr \<lparr> domainHash = dh, messageHash = mh, safeTxHash = h \<rparr>))))"


section \<open>security/constants.ts\<close>

definition MULTISEND_CALL_ONLY :: "string list" where
  "MULTISEND_CALL_ONLY =
     [''0x40A2aCCbd92BCA938b02010E17A5b8929b49130D'',
      ''0xA1dabEF33b3B82c7814B6D82A79e50F4AC44102B'',
      ''0xf220D3b4DFb23C4ade8C88E526C1353AbAcbC38F'',
      ''0x9641d764fc13c8B624c04430C7356C1C7C8102e2'',
      ''0x0408EF011960d02349d50286D20531229BCef773'',
      ''0xA83c336B20401Af773B6219BA5027174338D1836'']"

definition SAFE_MIGRATION :: "string list" where
  "SAFE_MIGRATION =
     [''0x526643F69b81B008F46d95CD5ced5eC0edFFDaC6'',
      ''0x817756C6c555A94BCEE39eB5a102AbC1678b09A7'',
      ''0x6439e7ABD8Bb915A5263094784C5CF561c4172AC'']"

definition SIGN_MESSAGE_LIB :: "string list" where
  "SIGN_MESSAGE_LIB =
     [''0xA65387F16B013cf2Af4605Ad8aA5ec25a2cbA3a2'',
      ''0x98FFBBF51bb33A056B08ddf711f289936AafF717'',
      ''0x357147caf9C0cCa67DfA0CF5369318d8193c8407'',
      ''0xd53cd0aB83D845Ac265BE939c57F53AD838012c9'',
      ''0xAca1ec0a1A575CDCCF1DC3d5d296202Eb6061888'',
      ''0x4FfeF8222648872B3dE295Ba1e49110E61f5b5aa'']"

definition TRUSTED_DELEGATE_CALL_ADDRESSES :: "string list" where
  "TRUSTED_DELEGATE_CALL_ADDRESSES = MULTISEND_CALL_ONLY @ SAFE_MIGRATION @ SIGN_MESSAGE_LIB"

definition TRUSTED_MODULES :: "string list" where
  "TRUSTED_MODULES = [''0xcfbfac74c26f8647cbdb8c5caf80bb5b32e43134'']"

definition TRUSTED_GUARDS :: "string list" where
  "TRUSTED_GUARDS = []"

definition ZERO_ADDRESS :: string where
  "ZERO_ADDRESS = ''0x0000000000000000000000000000000000000000''"

section \<open>security/types.ts\<close>

text \<open>
  The severity strings. \<open>WarningLevel\<close> is \<open>critical | high | medium | low | info\<close>;
  \<open>riskLevel\<close> and \<open>overallRisk\<close> are \<open>critical | high | medium | low | none\<close>. One
  datatype holds both unions.
\<close>

datatype Level = Critical | High | Medium | Low | Info | NoRisk

record DelegateCallCheckResult =
  isDelegateCall :: bool
  dc_isTrusted :: bool
  dc_targetAddress :: "string option"
  dc_warning :: "string option"
  dc_warningLevel :: "Level option"

record GasTokenCheckResult =
  usesCustomGasToken :: bool
  usesCustomRefundReceiver :: bool
  hasNonZeroGasPrice :: bool
  gt_gasToken :: string
  gt_refundReceiver :: string
  gt_gasPrice :: string
  riskLevel :: Level
  warnings :: "string list"
  gt_warningLevel :: "Level option"

record OwnerModificationDetection =
  om_functionName :: string
  om_isNested :: bool
  om_depth :: nat

record OwnerModificationCheckResult =
  modifiesOwners :: bool
  modifications :: "OwnerModificationDetection list"
  om_warning :: "string option"
  om_warningLevel :: Level

record ModuleGuardDetection =
  mg_type :: string
  mg_functionName :: string
  mg_targetAddress :: "string option"
  mg_isTrusted :: bool
  mg_isNested :: bool
  mg_depth :: nat

record ModuleGuardCheckResult =
  hasModuleOperation :: bool
  hasGuardOperation :: bool
  detections :: "ModuleGuardDetection list"
  mg_warnings :: "string list option"
  mg_warningLevel :: Level

record SecurityAnalysisResult =
  delegateCall :: DelegateCallCheckResult
  gasToken :: GasTokenCheckResult
  ownerModification :: OwnerModificationCheckResult
  moduleGuard :: ModuleGuardCheckResult
  overallRisk :: Level
  requiresCarefulReview :: bool

section \<open>security/delegate-call.ts\<close>

definition isTrustedForDelegateCall :: "string \<Rightarrow> bool" where
  "isTrustedForDelegateCall address =
     (let normalizedAddress = toLowerCase address
      in list_ex (\<lambda>trusted. toLowerCase trusted = normalizedAddress) TRUSTED_DELEGATE_CALL_ADDRESSES)"

definition checkDelegateCall :: "int \<Rightarrow> string \<Rightarrow> DelegateCallCheckResult" where
  "checkDelegateCall operation to =
     (if operation \<noteq> 1 then
        \<lparr> isDelegateCall = False, dc_isTrusted = False, dc_targetAddress = None,
          dc_warning = None, dc_warningLevel = None \<rparr>
      else if isTrustedForDelegateCall to then
        \<lparr> isDelegateCall = True, dc_isTrusted = True, dc_targetAddress = Some to,
          dc_warning = None, dc_warningLevel = None \<rparr>
      else
        \<lparr> isDelegateCall = True, dc_isTrusted = False, dc_targetAddress = Some to,
          dc_warning = Some (''WARNING: The transaction includes an untrusted delegate call to address ''
             @ to @ ''! This may lead to unexpected behaviour or vulnerabilities. Please review it carefully before you sign!''),
          dc_warningLevel = Some Critical \<rparr>)"

section \<open>security/gas-token.ts\<close>

definition GAS_WARNING_BOTH :: string where
  "GAS_WARNING_BOTH = ''WARNING: This transaction uses a custom gas token and a custom refund receiver. ''
     @ ''This combination can be used to hide a rerouting of funds through gas refunds.''"

definition GAS_WARNING_PRICE :: string where
  "GAS_WARNING_PRICE = ''Furthermore, the gas price is non-zero, which increases the potential for hidden value transfers.''"

definition GAS_WARNING_TOKEN :: string where
  "GAS_WARNING_TOKEN = ''WARNING: This transaction uses a custom gas token. Please verify that this is intended.''"

definition GAS_WARNING_RECEIVER :: string where
  "GAS_WARNING_RECEIVER = ''WARNING: This transaction uses a custom refund receiver. Please verify that this is intended.''"

text \<open>\<open>typeof gasPrice === 'string' ? gasPrice : gasPrice.toString()\<close>.\<close>

fun gasPriceString :: "bigint_or_string \<Rightarrow> string" where
  "gasPriceString (StringV s) = s"
| "gasPriceString (BigIntV i) = toString_bigint i"

definition checkGasTokenAttack ::
  "bigint_or_string \<Rightarrow> string \<Rightarrow> string \<Rightarrow> exn + GasTokenCheckResult" where
  "checkGasTokenAttack gasPrice gasTok refundRecv =
     andThen (BigInt_js gasPrice) (\<lambda>gasPriceBigInt.
       let custGasToken = (toLowerCase gasTok \<noteq> toLowerCase ZERO_ADDRESS);
           custRefundReceiver = (toLowerCase refundRecv \<noteq> toLowerCase ZERO_ADDRESS);
           nonZeroGasPrice = (gasPriceBigInt > 0);
           res = (\<lambda>level ws wl.
             \<lparr> usesCustomGasToken = custGasToken,
               usesCustomRefundReceiver = custRefundReceiver,
               hasNonZeroGasPrice = nonZeroGasPrice,
               gt_gasToken = gasTok,
               gt_refundReceiver = refundRecv,
               gt_gasPrice = gasPriceString gasPrice,
               riskLevel = level,
               warnings = ws,
               gt_warningLevel = wl \<rparr>)
       in if custGasToken \<and> custRefundReceiver then
            (if nonZeroGasPrice then
               Inr (res Critical [GAS_WARNING_BOTH, GAS_WARNING_PRICE] (Some Critical))
             else Inr (res High [GAS_WARNING_BOTH] (Some High)))
          else if custGasToken then Inr (res Medium [GAS_WARNING_TOKEN] (Some Medium))
          else if custRefundReceiver then Inr (res Low [GAS_WARNING_RECEIVER] (Some Low))
          else Inr (res NoRisk [] None))"

section \<open>security/multisend-decoder.ts\<close>

type_synonym byte = "8 word"

definition hexChar :: "nat \<Rightarrow> char" where
  "hexChar n = (if n < 10 then char_of (48 + n) else char_of (87 + n))"

definition byteToHex :: "byte \<Rightarrow> string" where
  "byteToHex b = [hexChar (unat b div 16), hexChar (unat b mod 16)]"

definition hexDigits :: "byte list \<Rightarrow> string" where
  "hexDigits bs = concat (map byteToHex bs)"

text \<open>viem's \<open>bytesToHex\<close>: \<open>0x\<close> and two lower-case digits per byte.\<close>

definition bytesToHex :: "byte list \<Rightarrow> string" where
  "bytesToHex bs = ''0x'' @ hexDigits bs"

fun pairsToBytes :: "string \<Rightarrow> exn + byte list" where
  "pairsToBytes [] = Inr []"
| "pairsToBytes [c] = Inl (LibError ''Invalid byte sequence'')"
| "pairsToBytes (c # d # cs) =
     (case (hexDigitVal c, hexDigitVal d) of
        (Some h, Some l) \<Rightarrow> andThen (pairsToBytes cs) (\<lambda>bs. Inr (of_nat (h * 16 + l) # bs))
      | _ \<Rightarrow> Inl (LibError ''Invalid byte sequence''))"

text \<open>
  viem's \<open>hexToBytes\<close>: the text after the first two characters, left-padded with \<open>0\<close> to
  an even length, read two digits per byte; a character that is no hexadecimal digit throws.
\<close>

definition hexToBytes :: "string \<Rightarrow> exn + byte list" where
  "hexToBytes hex =
     (let hexString = drop 2 hex
      in pairsToBytes (if odd (length hexString) then CHR ''0'' # hexString else hexString))"

text \<open>The big-endian value of a byte string.\<close>

definition beValue :: "byte list \<Rightarrow> nat" where
  "beValue bs = foldl (\<lambda>acc b. acc * 256 + unat b) 0 bs"

text \<open>
  viem's decoding cursor: \<open>readBytes(len)\<close> at a position throws when the last byte read
  lies beyond the buffer.
\<close>

definition readBytes :: "byte list \<Rightarrow> nat \<Rightarrow> nat \<Rightarrow> exn + byte list" where
  "readBytes bytes pos len =
     (if pos + len > length bytes then Inl (LibError ''PositionOutOfBounds'')
      else Inr (take len (drop pos bytes)))"

text \<open>
  viem's \<open>decodeAbiParameters\<close> for the single parameter \<open>bytes\<close>: the first word is the
  offset of the value, the word there is its length, the bytes follow. Empty data, data
  shorter than a word and any read beyond the buffer throw; after the value the cursor is
  put back behind the first word, which throws when the buffer ends there. The padding
  after the value is not read. (The words are converted to JavaScript numbers; a word of
  \<open>2^53\<close> or more stays above every buffer length, so the exact value is used.)
\<close>

definition decodeBytesParam :: "byte list \<Rightarrow> exn + string" where
  "decodeBytesParam bytes =
     (if length bytes = 0 then Inl (LibError ''AbiDecodingZeroData'')
      else if length bytes < 32 then Inl (LibError ''AbiDecodingDataSizeTooSmall'')
      else andThen (readBytes bytes 0 32) (\<lambda>w.
        let offset = beValue w in
        if offset \<ge> length bytes then Inl (LibError ''PositionOutOfBounds'')
        else andThen (readBytes bytes offset 32) (\<lambda>w2.
          let len = beValue w2 in
          if len = 0 then
            (if 32 \<ge> length bytes then Inl (LibError ''PositionOutOfBounds'') else Inr ''0x'')
          else andThen (readBytes bytes (offset + 32) len) (\<lambda>d. Inr (bytesToHex d)))))"

record DecodedFunctionData =
  functionName :: string
  args :: "string list option"

text \<open>viem's \<open>size\<close> of a hex string: \<open>Math.ceil((value.length - 2) / 2)\<close>.\<close>

definition size_hex :: "string \<Rightarrow> nat" where
  "size_hex v = (length v - 2 + 1) div 2"

text \<open>\<open>toFunctionSelector('multiSend(bytes)')\<close>.\<close>

definition MULTISEND_SELECTOR :: string where
  "MULTISEND_SELECTOR = ''0x8d80ff0a''"

text \<open>
  viem's \<open>decodeFunctionData({ abi: MULTISEND_ABI, data })\<close>. The library is not part of
  the repository; this follows its documented behaviour for the one-function ABI: the
  first four bytes of \<open>data\<close>, as text, must equal the selector of \<open>multiSend(bytes)\<close>
  (else AbiFunctionSignatureNotFoundError), and the rest is decoded as one \<open>bytes\<close> value.
\<close>

definition decodeFunctionData_MULTISEND :: "string \<Rightarrow> exn + DecodedFunctionData" where
  "decodeFunctionData_MULTISEND data =
     (if \<not> startsWith data ''0x'' then Inl (LibError ''AbiFunctionSignatureNotFound'')
      else let selector = ''0x'' @ take 8 (remove0x data) in
        if selector \<noteq> MULTISEND_SELECTOR then Inl (LibError ''AbiFunctionSignatureNotFound'')
        else if 4 > size_hex data - 1 then Inl (LibError ''SliceOffsetOutOfBounds'')
        else andThen (hexToBytes (''0x'' @ drop 8 (remove0x data))) (\<lambda>bytes.
             andThen (decodeBytesParam bytes) (\<lambda>packed.
             Inr \<lparr> functionName = ''multiSend'', args = Some [packed] \<rparr>)))"

record DecodedMultiSendTransaction =
  ms_operation :: jsnum
  ms_to :: string
  ms_value :: int
  ms_data :: string

text \<open>
  The \<open>while (offset < packedData.length)\<close> loop of \<open>decodeMultiSend\<close>. \<open>offset\<close> is a
  JavaScript number: it becomes \<open>NaN\<close> when the data length could not be parsed, and the
  loop then ends. \<open>BigInt\<close> is the only operation in the body that can throw.
\<close>

function decodeLoop ::
  "string \<Rightarrow> jsnum \<Rightarrow> DecodedMultiSendTransaction list
     \<Rightarrow> exn + DecodedMultiSendTransaction list" where
  "decodeLoop packedData offset transactions =
     (case offset of
        Num off0 \<Rightarrow>
          if off0 < length packedData then
            (let operation = parseInt16 (slice_js packedData off0 (Num (off0 + 2)));
                 off1 = off0 + 2;
                 to = ''0x'' @ slice_js packedData off1 (Num (off1 + 40));
                 off2 = off1 + 40;
                 valueHex = slice_js packedData off2 (Num (off2 + 64))
             in case BigInt_string (''0x'' @ valueHex) of
                  Inl e \<Rightarrow> Inl e
                | Inr val \<Rightarrow>
                    (let off3 = off2 + 64;
                         dataLengthHex = slice_js packedData off3 (Num (off3 + 64));
                         dataLength = parseInt16 dataLengthHex;
                         off4 = off3 + 64;
                         txData = ''0x'' @ slice_js packedData off4
                                               (add_js (Num off4) (twice_js dataLength));
                         off5 = add_js (Num off4) (twice_js dataLength)
                     in decodeLoop packedData off5
                          (transactions @
                            [\<lparr> ms_operation = operation, ms_to = to, ms_value = val,
                               ms_data = txData \<rparr>])))
          else Inr transactions
      | _ \<Rightarrow> Inr transactions)"
  by pat_completeness auto
termination
proof (relation "measure (\<lambda>(p, offset, ts). case offset of Num n \<Rightarrow> length p - n | _ \<Rightarrow> 0)")
  have step: "(case add_js (Num m) (twice_js d) of Num n \<Rightarrow> len - n | _ \<Rightarrow> 0) < len - off0"
    if "off0 < len" "off0 < m" for m d len off0
    using that by (cases d) auto
  fix packedData :: string and offset :: jsnum
    and transactions :: "DecodedMultiSendTransaction list" and off0 :: nat
    and operation :: jsnum and off1 :: nat and to :: string and off2 :: nat
    and valueHex :: string and val :: int and off3 :: nat and dataLengthHex :: string
    and dataLength :: jsnum and off4 :: nat and txData :: string and off5 :: jsnum
  assume "offset = Num off0" "off0 < length packedData"
    "off1 = off0 + 2" "off2 = off1 + 40" "off3 = off2 + 64" "off4 = off3 + 64"
    "off5 = add_js (Num off4) (twice_js dataLength)"
  then show "((packedData, off5,
           transactions @
             [\<lparr> ms_operation = operation, ms_to = to, ms_value = val, ms_data = txData \<rparr>]),
          (packedData, offset, transactions))
         \<in> measure (\<lambda>(p, offset, ts). case offset of Num n \<Rightarrow> length p - n | _ \<Rightarrow> 0)"
    using step [of off0 "length packedData" off4 dataLength] by simp
qed simp

declare decodeLoop.simps [simp del]

text \<open>
  \<open>decodeMultiSend\<close>: every exception of the body is caught and turned into \<open>null\<close>
  (\<open>None\<close>). \<open>decoded.args[0]\<close> of an empty argument list is \<open>undefined\<close>, whose
  \<open>length\<close> throws.
\<close>

definition decodeMultiSend :: "string \<Rightarrow> DecodedMultiSendTransaction list option" where
  "decodeMultiSend data =
     (case decodeFunctionData_MULTISEND data of
        Inl e \<Rightarrow> None
      | Inr decoded \<Rightarrow>
          if functionName decoded \<noteq> ''multiSend'' \<or> args decoded = None then None
          else (case args decoded of
                  Some (packedData # _) \<Rightarrow>
                    (case decodeLoop packedData (Num 2) [] of
                       Inl e \<Rightarrow> None
                     | Inr transactions \<Rightarrow> Some transactions)
                | _ \<Rightarrow> None))"

definition isMultiSend :: "string \<Rightarrow> bool" where
  "isMultiSend data =
     (case decodeFunctionData_MULTISEND data of
        Inl e \<Rightarrow> False
      | Inr decoded \<Rightarrow> functionName decoded = ''multiSend'')"

subsection \<open>The loop, one record at a time\<close>

text \<open>
  One iteration of the loop at offset \<open>off0\<close>: the record it pushes and the offset it
  continues from. These only name parts of the loop body.
\<close>

lemma length_slice_js: "length (slice_js s start fin) \<le> length s - start"
  by (auto simp: slice_js_def split: jsnum.splits)

definition nextOffset :: "string \<Rightarrow> nat \<Rightarrow> jsnum" where
  "nextOffset p off0 =
     add_js (Num (off0 + 170)) (twice_js (parseInt16 (slice_js p (off0 + 106) (Num (off0 + 170)))))"

definition recordAt :: "string \<Rightarrow> nat \<Rightarrow> int \<Rightarrow> DecodedMultiSendTransaction" where
  "recordAt p off0 val =
     \<lparr> ms_operation = parseInt16 (slice_js p off0 (Num (off0 + 2))),
       ms_to = ''0x'' @ slice_js p (off0 + 2) (Num (off0 + 42)),
       ms_value = val,
       ms_data = ''0x'' @ slice_js p (off0 + 170) (nextOffset p off0) \<rparr>"

lemma decodeLoop_step:
  "off0 < length p \<Longrightarrow>
   decodeLoop p (Num off0) acc =
     (case BigInt_string (''0x'' @ slice_js p (off0 + 42) (Num (off0 + 106))) of
        Inl e \<Rightarrow> Inl e
      | Inr val \<Rightarrow> decodeLoop p (nextOffset p off0) (acc @ [recordAt p off0 val]))"
  by (subst decodeLoop.simps)
     (simp add: Let_def nextOffset_def recordAt_def add.commute split: sum.splits)

lemma decodeLoop_end: "\<not> off0 < length p \<Longrightarrow> decodeLoop p (Num off0) acc = Inr acc"
  by (subst decodeLoop.simps) simp

lemma decodeLoop_NaN: "decodeLoop p NaN acc = Inr acc"
  by (subst decodeLoop.simps) simp

lemma decodeLoop_Infinity: "decodeLoop p Infinity acc = Inr acc"
  by (subst decodeLoop.simps) simp

lemma nextOffset_cases:
  "nextOffset p off0 = NaN \<or> nextOffset p off0 = Infinity \<or> (\<exists>m. nextOffset p off0 = Num m \<and> off0 + 170 \<le> m)"
  unfolding nextOffset_def
  by (cases "parseInt16 (slice_js p (off0 + 106) (Num (off0 + 170)))") auto

lemma decodeLoop_data_length:
  "decodeLoop p (Num n) acc = Inr txs \<Longrightarrow> tx \<in> set txs \<Longrightarrow> 2 \<le> n
   \<Longrightarrow> tx \<in> set acc \<or> length (ms_data tx) \<le> length p"
proof (induction "length p - n" arbitrary: n acc rule: less_induct)
  case less
  show ?case
  proof (cases "n < length p")
    case False
    then show ?thesis using less.prems by (simp add: decodeLoop_end)
  next
    case True
    then obtain val where v: "BigInt_string (''0x'' @ slice_js p (n + 42) (Num (n + 106))) = Inr val"
      and rec: "decodeLoop p (nextOffset p n) (acc @ [recordAt p n val]) = Inr txs"
      using less.prems(1) by (auto simp: decodeLoop_step split: sum.splits)
    have len: "length (ms_data (recordAt p n val)) \<le> length p"
      using length_slice_js [of p "n + 170" "nextOffset p n"] True less.prems(3)
      by (simp add: recordAt_def)
    from nextOffset_cases [of p n] show ?thesis
    proof (elim disjE exE conjE)
      assume "nextOffset p n = NaN"
      then show ?thesis using rec len less.prems(2) by (auto simp: decodeLoop_NaN)
    next
      assume "nextOffset p n = Infinity"
      then show ?thesis using rec len less.prems(2) by (auto simp: decodeLoop_Infinity)
    next
      fix m assume m: "nextOffset p n = Num m" "n + 170 \<le> m"
      then have "length p - m < length p - n" using True by simp
      from less.hyps [OF this, of "acc @ [recordAt p n val]"] rec m less.prems(2)
      have "tx \<in> set (acc @ [recordAt p n val]) \<or> length (ms_data tx) \<le> length p" by simp
      then show ?thesis using len by auto
    qed
  qed
qed

lemma pairsToBytes_length: "pairsToBytes s = Inr bs \<Longrightarrow> 2 * length bs = length s"
  by (induction s arbitrary: bs rule: pairsToBytes.induct)
     (auto simp: andThen_def split: option.splits sum.splits)

lemma length_byteToHex [simp]: "length (byteToHex b) = 2"
  by (simp add: byteToHex_def)

lemma length_hexDigits [simp]: "length (hexDigits bs) = 2 * length bs"
  by (induction bs) (auto simp: hexDigits_def)

lemma decodeBytesParam_length:
  "decodeBytesParam bytes = Inr packed \<Longrightarrow> 32 \<le> length bytes \<and> length packed + 62 \<le> 2 * length bytes"
  by (auto simp: decodeBytesParam_def andThen_def readBytes_def bytesToHex_def Let_def
           split: if_splits)

lemma decodeFunctionData_args:
  assumes "decodeFunctionData_MULTISEND data = Inr d"
  shows "functionName d = ''multiSend'' \<and> (\<exists>packed. args d = Some [packed] \<and> length packed < length data)"
proof -
  from assms obtain bytes packed where
    b: "hexToBytes (''0x'' @ drop 8 (remove0x data)) = Inr bytes"
    and p: "decodeBytesParam bytes = Inr packed"
    and d: "d = \<lparr> functionName = ''multiSend'', args = Some [packed] \<rparr>"
    and sw: "startsWith data ''0x''"
    by (auto simp: decodeFunctionData_MULTISEND_def andThen_def Let_def split: if_splits sum.splits)
  from sw obtain r where r: "data = CHR ''0'' # CHR ''x'' # r"
    by (cases data; cases "tl data") (auto simp: startsWith_def)
  have "2 * length bytes \<le> length (drop 8 r) + 1"
  proof (cases "odd (length (drop 8 r))")
    case True
    then have "pairsToBytes (CHR ''0'' # drop 8 r) = Inr bytes"
      using b by (simp add: hexToBytes_def r)
    from pairsToBytes_length [OF this] show ?thesis by simp
  next
    case False
    then have "pairsToBytes (drop 8 r) = Inr bytes"
      using b by (simp add: hexToBytes_def r)
    from pairsToBytes_length [OF this] show ?thesis by simp
  qed
  then have "2 * length bytes \<le> length data" by (simp add: r)
  with decodeBytesParam_length [OF p] show ?thesis by (simp add: d)
qed

lemma decodeMultiSend_data_shorter:
  assumes "decodeMultiSend data = Some txs" "tx \<in> set txs"
  shows "length (ms_data tx) < length data"
proof -
  from assms(1) obtain d packed where d: "decodeFunctionData_MULTISEND data = Inr d"
    and a: "args d = Some [packed]" and l: "length packed < length data"
    and loop: "decodeLoop packed (Num 2) [] = Inr txs"
    using decodeFunctionData_args
    by (fastforce simp: decodeMultiSend_def split: sum.splits if_splits option.splits list.splits)
  from decodeLoop_data_length [OF loop assms(2)] l show ?thesis by simp
qed


section \<open>security/owner-checks.ts\<close>

text \<open>
  The selector table, as \<open>toFunctionSelector\<close> computes it (the first four bytes of the
  Keccak-256 hash of the signature, in lower-case hexadecimal).
\<close>

definition OWNER_MODIFICATION_SELECTORS :: "(string \<times> string) list" where
  "OWNER_MODIFICATION_SELECTORS =
     [(''0x0d582f13'', ''addOwnerWithThreshold''),
      (''0xf8dc5dd9'', ''removeOwner''),
      (''0xe318b52b'', ''swapOwner''),
      (''0x694e80c3'', ''changeThreshold'')]"

definition getFunctionSelector :: "string \<Rightarrow> string option" where
  "getFunctionSelector data =
     (if data = [] \<or> data = ''0x'' \<or> length data < 10 then None else Some (take 10 data))"

text \<open>The selector lookup at the head of \<open>checkTransactionData\<close>.\<close>

definition ownerFunctionOf :: "string \<Rightarrow> string option" where
  "ownerFunctionOf data =
     (case getFunctionSelector data of
        None \<Rightarrow> None
      | Some selector \<Rightarrow> map_of OWNER_MODIFICATION_SELECTORS selector)"

function owner_checkTransactionData :: "string \<Rightarrow> nat \<Rightarrow> OwnerModificationDetection list" where
  "owner_checkTransactionData data depth =
     (if data = [] \<or> data = ''0x'' then []
      else (case ownerFunctionOf data of
              Some fname \<Rightarrow>
                [\<lparr> om_functionName = fname, om_isNested = (depth > 0), om_depth = depth \<rparr>]
            | None \<Rightarrow>
                (case decodeMultiSend data of
                   None \<Rightarrow> []
                 | Some multiSendTxs \<Rightarrow>
                     concat (map (\<lambda>tx. owner_checkTransactionData (ms_data tx) (depth + 1))
                               multiSendTxs))))"
  by pat_completeness auto
termination
  by (relation "measure (\<lambda>(data, depth). length data)")
     (auto dest: decodeMultiSend_data_shorter)

declare owner_checkTransactionData.simps [simp del]

definition checkOwnerModifications :: "string \<Rightarrow> OwnerModificationCheckResult" where
  "checkOwnerModifications data =
     (let mods = owner_checkTransactionData data 0 in
      if length mods = 0 then
        \<lparr> modifiesOwners = False, modifications = [], om_warning = None, om_warningLevel = Info \<rparr>
      else
        let functionNames = join_js '', '' (map om_functionName mods);
            warning = ''WARNING: This transaction modifies the owners or threshold of the Safe! Functions: ''
                        @ functionNames @ ''. Proceed with caution!''
        in \<lparr> modifiesOwners = True, modifications = mods, om_warning = Some warning,
             om_warningLevel = Critical \<rparr>)"

section \<open>security/module-guard-checks.ts\<close>

definition MODULE_SELECTORS :: "(string \<times> string) list" where
  "MODULE_SELECTORS =
     [(''0x610b5925'', ''enableModule''),
      (''0xe009cfde'', ''disableModule'')]"

definition GUARD_SELECTORS :: "(string \<times> string) list" where
  "GUARD_SELECTORS = [(''0xe19a9dd9'', ''setGuard'')]"

definition isTrustedModule :: "string \<Rightarrow> bool" where
  "isTrustedModule address =
     (let normalizedAddress = toLowerCase address
      in list_ex (\<lambda>trusted. toLowerCase trusted = normalizedAddress) TRUSTED_MODULES)"

definition isTrustedGuard :: "string \<Rightarrow> bool" where
  "isTrustedGuard address =
     (let normalizedAddress = toLowerCase address
      in list_ex (\<lambda>trusted. toLowerCase trusted = normalizedAddress) TRUSTED_GUARDS)"

text \<open>
  viem's \<open>decodeFunctionData\<close> with a human-readable one-function ABI, as the module and
  guard checks call it: a parameter of the model, from the ABI text and the call data to
  \<open>decoded.args\<close> (or an exception).
\<close>

type_synonym decode_fn = "string \<Rightarrow> string \<Rightarrow> exn + string list option"

text \<open>
  The body of the \<open>try\<close> blocks: decode, throw \<open>failure\<close> on missing arguments, take the
  argument at \<open>idx\<close> (\<open>undefined.toLowerCase()\<close> throws a TypeError when it is absent).
\<close>

definition decodeTarget ::
  "decode_fn \<Rightarrow> string \<Rightarrow> nat \<Rightarrow> string \<Rightarrow> string \<Rightarrow> exn + string" where
  "decodeTarget decodeFunctionData abi idx failure data =
     andThen (decodeFunctionData abi data) (\<lambda>decodedArgs.
       case decodedArgs of
         None \<Rightarrow> Inl (Error failure)
       | Some as \<Rightarrow>
           if length as = 0 then Inl (Error failure)
           else (case at_js as idx of
                   None \<Rightarrow>
                     Inl (TypeError (''Cannot read properties of undefined (reading ''
                                    @ [CHR 0x27] @ ''toLowerCase'' @ [CHR 0x27] @ '')''))
                 | Some a \<Rightarrow> Inr a))"

definition moduleFunctionOf :: "string \<Rightarrow> string option" where
  "moduleFunctionOf data =
     (case getFunctionSelector data of
        None \<Rightarrow> None
      | Some selector \<Rightarrow> map_of MODULE_SELECTORS selector)"

definition guardFunctionOf :: "string \<Rightarrow> string option" where
  "guardFunctionOf data =
     (case getFunctionSelector data of
        None \<Rightarrow> None
      | Some selector \<Rightarrow> map_of GUARD_SELECTORS selector)"

definition moduleDetection :: "decode_fn \<Rightarrow> string \<Rightarrow> string \<Rightarrow> nat \<Rightarrow> ModuleGuardDetection" where
  "moduleDetection decodeFunctionData fname data depth =
     (case (if fname = ''enableModule''
            then decodeTarget decodeFunctionData ''function enableModule(address module)'' 0
                   ''Failed to decode module address'' data
            else decodeTarget decodeFunctionData
                   ''function disableModule(address prevModule, address module)'' 1
                   ''Failed to decode module address'' data) of
        Inr moduleAddress \<Rightarrow>
          \<lparr> mg_type = ''module'', mg_functionName = fname, mg_targetAddress = Some moduleAddress,
            mg_isTrusted = isTrustedModule moduleAddress, mg_isNested = (depth > 0),
            mg_depth = depth \<rparr>
      | Inl e \<Rightarrow>
          \<lparr> mg_type = ''module'', mg_functionName = fname, mg_targetAddress = None,
            mg_isTrusted = False, mg_isNested = (depth > 0), mg_depth = depth \<rparr>)"

definition guardDetection :: "decode_fn \<Rightarrow> string \<Rightarrow> string \<Rightarrow> nat \<Rightarrow> ModuleGuardDetection" where
  "guardDetection decodeFunctionData fname data depth =
     (case decodeTarget decodeFunctionData ''function setGuard(address guard)'' 0
             ''Failed to decode guard address'' data of
        Inr guardAddress \<Rightarrow>
          \<lparr> mg_type = ''guard'', mg_functionName = fname, mg_targetAddress = Some guardAddress,
            mg_isTrusted = isTrustedGuard guardAddress, mg_isNested = (depth > 0),
            mg_depth = depth \<rparr>
      | Inl e \<Rightarrow>
          \<lparr> mg_type = ''guard'', mg_functionName = fname, mg_targetAddress = None,
            mg_isTrusted = False, mg_isNested = (depth > 0), mg_depth = depth \<rparr>)"

function moduleGuard_checkTransactionData ::
  "decode_fn \<Rightarrow> string \<Rightarrow> nat \<Rightarrow> ModuleGuardDetection list" where
  "moduleGuard_checkTransactionData decodeFunctionData data depth =
     (if data = [] \<or> data = ''0x'' then []
      else (case moduleFunctionOf data of
              Some fname \<Rightarrow> [moduleDetection decodeFunctionData fname data depth]
            | None \<Rightarrow>
                (case guardFunctionOf data of
                   Some fname \<Rightarrow> [guardDetection decodeFunctionData fname data depth]
                 | None \<Rightarrow>
                     (case decodeMultiSend data of
                        None \<Rightarrow> []
                      | Some multiSendTxs \<Rightarrow>
                          concat (map (\<lambda>tx. moduleGuard_checkTransactionData decodeFunctionData
                                                (ms_data tx) (depth + 1))
                                    multiSendTxs)))))"
  by pat_completeness auto
termination
  by (relation "measure (\<lambda>(dfd, data, depth). length data)")
     (auto dest: decodeMultiSend_data_shorter)

declare moduleGuard_checkTransactionData.simps [simp del]

definition checkModuleGuardOperations :: "decode_fn \<Rightarrow> string \<Rightarrow> ModuleGuardCheckResult" where
  "checkModuleGuardOperations decodeFunctionData data =
     (let dets = moduleGuard_checkTransactionData decodeFunctionData data 0 in
      if length dets = 0 then
        \<lparr> hasModuleOperation = False, hasGuardOperation = False, detections = [],
          mg_warnings = None, mg_warningLevel = Info \<rparr>
      else
        let moduleOps = filter (\<lambda>d. mg_type d = ''module'') dets;
            guardOps = filter (\<lambda>d. mg_type d = ''guard'') dets;
            trustedCount = length (filter mg_isTrusted moduleOps);
            untrustedCount = length moduleOps - trustedCount;
            moduleNames = join_js '', '' (map mg_functionName moduleOps);
            w1 = (if length moduleOps > 0 then
                    (if untrustedCount > 0 then
                       [''WARNING: This transaction modifies Safe modules ('' @ moduleNames @ '')! ''
                        @ ''Modules have unlimited access to the Safe and can execute arbitrary transactions, bypassing signature requirements. ''
                        @ ''This is a significant security risk.'']
                     else if trustedCount > 0 then
                       [''WARNING: This transaction modifies Safe modules ('' @ moduleNames @ '')! ''
                        @ ''Even though this involves a trusted module, modules have significant power and risk. ''
                        @ ''Verify the module address and ensure this change is intended.'']
                     else [])
                  else []);
            guardNames = join_js '', '' (map mg_functionName guardOps);
            w2 = (if length guardOps > 0 then
                    [''WARNING: This transaction modifies the Safe guard ('' @ guardNames @ '')! ''
                     @ ''Guards can block transaction execution. An improperly configured guard can cause denial of service, ''
                     @ ''effectively bricking the Safe. Proceed with extreme caution!'']
                  else [])
        in \<lparr> hasModuleOperation = (length moduleOps > 0),
             hasGuardOperation = (length guardOps > 0),
             detections = dets,
             mg_warnings = Some (w1 @ w2),
             mg_warningLevel = High \<rparr>)"

section \<open>security/analyzer.ts\<close>

text \<open>The cascade that sets \<open>overallRisk\<close>, on the four levels the checks report.\<close>

definition overallOf :: "Level option \<Rightarrow> Level \<Rightarrow> Level \<Rightarrow> Level \<Rightarrow> Level" where
  "overallOf dcLevel gtLevel omLevel mgLevel =
     (if dcLevel = Some Critical \<or> gtLevel = Critical \<or> omLevel = Critical \<or> mgLevel = Critical
      then Critical
      else if dcLevel = Some High \<or> gtLevel = High \<or> omLevel = High \<or> mgLevel = High
      then High
      else if dcLevel = Some Medium \<or> gtLevel = Medium \<or> omLevel = Medium \<or> mgLevel = Medium
      then Medium
      else if dcLevel = Some Low \<or> gtLevel = Low \<or> omLevel = Low \<or> mgLevel = Low
      then Low
      else NoRisk)"

definition analyzeSecurity :: "decode_fn \<Rightarrow> SafeTransactionData \<Rightarrow> exn + SecurityAnalysisResult" where
  "analyzeSecurity decodeFunctionData txData =
     (let dc = checkDelegateCall (tx_operation txData) (tx_to txData) in
      andThen (checkGasTokenAttack (tx_gasPrice txData) (tx_gasToken txData)
                 (tx_refundReceiver txData)) (\<lambda>gt.
        let om = checkOwnerModifications (tx_data txData);
            mg = checkModuleGuardOperations decodeFunctionData (tx_data txData);
            overall = overallOf (dc_warningLevel dc) (riskLevel gt) (om_warningLevel om)
                        (mg_warningLevel mg);
            review = (overall = Critical \<or> overall = High \<or> dc_warningLevel dc \<noteq> None
                      \<or> length (warnings gt) > 0 \<or> modifiesOwners om
                      \<or> hasModuleOperation mg \<or> hasGuardOperation mg)
        in Inr \<lparr> delegateCall = dc, gasToken = gt, ownerModification = om, moduleGuard = mg,
                 overallRisk = overall, requiresCarefulReview = review \<rparr>))"

section \<open>utils/verify-decoded.ts\<close>

text \<open>
  A JSON value, as the Safe API delivers a parameter's \<open>value\<close> (declared \<open>string\<close>, an
  array for list parameters). Numbers are the integers.
\<close>

datatype jsval =
  JString string
  | JNumber int
  | JBool bool
  | JNull
  | JArray "jsval list"
  | JObject

text \<open>\<open>String(v)\<close>: an array joins its elements with commas, \<open>null\<close> elements as empty.\<close>

fun String_js :: "jsval \<Rightarrow> string" where
  "String_js (JString s) = s"
| "String_js (JNumber i) = toString_bigint i"
| "String_js (JBool b) = (if b then ''true'' else ''false'')"
| "String_js JNull = ''null''"
| "String_js (JArray xs) =
     join_js '','' (map (\<lambda>x. if x = JNull then [] else String_js x) xs)"
| "String_js JObject = ''[object Object]''"

text \<open>\<open>BigInt(v)\<close>.\<close>

fun BigInt_val :: "jsval \<Rightarrow> exn + int" where
  "BigInt_val (JString s) = BigInt_string s"
| "BigInt_val (JNumber i) = Inr i"
| "BigInt_val (JBool b) = Inr (if b then 1 else 0)"
| "BigInt_val JNull = Inl (TypeError ''Cannot convert null to a BigInt'')"
| "BigInt_val (JArray xs) = BigInt_string (String_js (JArray xs))"
| "BigInt_val JObject = Inl (cannotConvert ''[object Object]'')"

record DecodedParameter =
  p_name :: string
  p_type :: string
  p_value :: jsval

record SafeApiDataDecoded =
  dd_method :: string
  dd_parameters :: "DecodedParameter list"

record DecodeVerificationResult =
  verified :: bool
  error :: "string option"
  reencoded :: "string option"

text \<open>An argument handed to \<open>encodeFunctionData\<close>.\<close>

datatype abi_value = ValJs jsval | ValBigInt int | ValBool bool

text \<open>\<open>error.message\<close>.\<close>

fun message :: "exn \<Rightarrow> string" where
  "message (Error m) = m"
| "message (SyntaxError m) = m"
| "message (TypeError m) = m"
| "message (LibError m) = m"

text \<open>
  The callback of \<open>decoded.parameters.map\<close> that converts one declared value. \<open>JSON.parse\<close>
  is a parameter; its exception is caught by the inner \<open>try\<close>.
\<close>

definition convertArg :: "(string \<Rightarrow> exn + jsval) \<Rightarrow> DecodedParameter \<Rightarrow> exn + abi_value" where
  "convertArg JSON_parse param =
     (let ty = p_type param; v = p_value param in
      if ty = ''address'' \<or> ty = ''address[]'' then Inr (ValJs v)
      else if startsWith ty ''uint'' \<or> startsWith ty ''int'' then
        andThen (BigInt_val v) (\<lambda>i. Inr (ValBigInt i))
      else if ty = ''bool'' then Inr (ValBool (toLowerCase (String_js v) = ''true''))
      else if ty = ''bytes'' \<or> startsWith ty ''bytes'' then Inr (ValJs v)
      else if endsWith ty ''[]'' then
        (case (case v of JString s \<Rightarrow> JSON_parse s | _ \<Rightarrow> Inr v) of
           Inl e \<Rightarrow> Inr (ValJs v)
         | Inr parsed \<Rightarrow>
             Inr (ValJs (case parsed of JArray xs \<Rightarrow> parsed | _ \<Rightarrow> JArray [parsed])))
      else Inr (ValJs v))"

text \<open>\<open>xs.map(f)\<close> where \<open>f\<close> can throw: the first exception ends the map.\<close>

fun mapM_exn :: "('a \<Rightarrow> exn + 'b) \<Rightarrow> 'a list \<Rightarrow> exn + 'b list" where
  "mapM_exn f [] = Inr []"
| "mapM_exn f (x # xs) =
     andThen (f x) (\<lambda>y. andThen (mapM_exn f xs) (\<lambda>ys. Inr (y # ys)))"

text \<open>
  The body of the \<open>try\<close> block of \<open>verifyDecodedData\<close>. \<open>parseAbiParameters\<close> and
  \<open>encodeFunctionData\<close> are viem's and are parameters; each may throw.
\<close>

definition verifyBody ::
  "(string \<Rightarrow> exn + 'abi) \<Rightarrow> (string \<Rightarrow> 'abi \<Rightarrow> abi_value list \<Rightarrow> exn + string)
     \<Rightarrow> (string \<Rightarrow> exn + jsval) \<Rightarrow> string \<Rightarrow> SafeApiDataDecoded
     \<Rightarrow> exn + DecodeVerificationResult" where
  "verifyBody parseAbiParameters encodeFunctionData JSON_parse rawData decoded =
     (let functionSelector = take 10 rawData;
          ps = map (\<lambda>param. (p_name param, p_type param)) (dd_parameters decoded)
      in if length ps = 0 then
           (let ok = (rawData = functionSelector)
            in Inr \<lparr> verified = ok,
                     error = (if ok then None
                              else Some ''Raw data has extra bytes beyond function selector''),
                     reencoded = Some functionSelector \<rparr>)
         else
           andThen (parseAbiParameters
                      (join_js '', '' (map (\<lambda>(n, t). t @ '' '' @ n) ps))) (\<lambda>abiParameters.
           andThen (mapM_exn (convertArg JSON_parse) (dd_parameters decoded)) (\<lambda>as.
           andThen (encodeFunctionData (dd_method decoded) abiParameters as) (\<lambda>re.
             let ok = (toLowerCase re = toLowerCase rawData)
             in Inr \<lparr> verified = ok,
                      error = (if ok then None
                               else Some ''Re-encoded data does not match raw data''),
                      reencoded = Some re \<rparr>))))"

definition verifyDecodedData ::
  "(string \<Rightarrow> exn + 'abi) \<Rightarrow> (string \<Rightarrow> 'abi \<Rightarrow> abi_value list \<Rightarrow> exn + string)
     \<Rightarrow> (string \<Rightarrow> exn + jsval) \<Rightarrow> string option \<Rightarrow> SafeApiDataDecoded option
     \<Rightarrow> DecodeVerificationResult" where
  "verifyDecodedData parseAbiParameters encodeFunctionData JSON_parse rawData decoded =
     (case decoded of
        None \<Rightarrow> \<lparr> verified = False, error = Some ''No decoded data provided'', reencoded = None \<rparr>
      | Some d \<Rightarrow>
          (case rawData of
             None \<Rightarrow>
               \<lparr> verified = False, error = Some ''No raw data to verify against'',
                 reencoded = None \<rparr>
           | Some raw \<Rightarrow>
               if raw = [] \<or> raw = ''0x'' then
                 \<lparr> verified = False, error = Some ''No raw data to verify against'',
                   reencoded = None \<rparr>
               else
                 (case verifyBody parseAbiParameters encodeFunctionData JSON_parse raw d of
                    Inr r \<Rightarrow> r
                  | Inl e \<Rightarrow>
                      \<lparr> verified = False,
                        error = Some (''Verification failed: '' @ message e),
                        reencoded = None \<rparr>)))"

section \<open>Properties of the version comparator\<close>

lemmas version_eval = compareVersions_def compareLoop.simps Number_js_def isDigit_def digitVal_def
  toDouble_def at_js_def lt_js_def getVersion_def isVersionGte_def isVersionLte_def isVersionLt_def
  MIN_SAFE_VERSION_def validateVersion_def

lemma gt_js_irrefl [simp]: "\<not> gt_js x x"
  by (cases x) auto

lemma compareLoop_same: "compareLoop ps ps i = 0"
proof (induction "length ps - i" arbitrary: i)
  case 0
  then show ?case by (simp add: compareLoop.simps)
next
  case (Suc k)
  then have "compareLoop ps ps (Suc i) = 0" by simp
  then show ?case by (subst compareLoop.simps) (simp add: lt_js_def Let_def)
qed

lemma split_js_nonempty [simp]: "split_js sep s \<noteq> []"
  by (induction s) (auto split: list.splits)

lemma split_js_no_sep: "sep \<notin> set s \<Longrightarrow> split_js sep s = [s]"
  by (induction s) auto

lemma split_js_append: "split_js sep (a @ sep # b) = split_js sep a @ split_js sep b"
  by (induction a) (auto split: list.splits)

lemma split_js_prefix: "sep \<notin> set a \<Longrightarrow> split_js sep (a @ sep # b) = a # split_js sep b"
  by (simp add: split_js_append split_js_no_sep)

lemma getVersion_takeWhile: "getVersion v = takeWhile (\<lambda>c. c \<noteq> CHR ''+'') v"
proof -
  have "hd (split_js sep s) = takeWhile (\<lambda>c. c \<noteq> sep) s" for sep s
    by (induction s) (auto split: list.splits)
  then have "hd (split_js CHR ''+'' v) = takeWhile (\<lambda>c. c \<noteq> CHR ''+'') v" .
  moreover have "split_js CHR ''+'' v \<noteq> []" by simp
  ultimately show ?thesis
    by (cases "split_js CHR ''+'' v") (auto simp: getVersion_def at_js_def)
qed

lemma getVersion_suffix: "getVersion (v @ CHR ''+'' # t) = getVersion v"
  by (induction v) (auto simp: getVersion_takeWhile)

lemma getVersion_no_plus: "CHR ''+'' \<notin> set v \<Longrightarrow> getVersion v = v"
  by (induction v) (auto simp: getVersion_takeWhile)

lemma orZero_snoc_zero: "orZero (at_js (ps @ [Num 0]) i) = orZero (at_js ps i)"
  by (cases "i < length ps") (auto simp: at_js_def nth_append)

lemma compareLoop_snoc_zero_right: "compareLoop ps (ps @ [Num 0]) i = 0"
proof (induction "Suc (length ps) - i" arbitrary: i)
  case 0
  then show ?case by (simp add: compareLoop.simps)
next
  case (Suc k)
  then have "compareLoop ps (ps @ [Num 0]) (Suc i) = 0" by simp
  then show ?case
    by (subst compareLoop.simps) (simp add: lt_js_def Let_def orZero_snoc_zero)
qed

lemma compareLoop_snoc_zero_left: "compareLoop (ps @ [Num 0]) ps i = 0"
proof (induction "Suc (length ps) - i" arbitrary: i)
  case 0
  then show ?case by (simp add: compareLoop.simps)
next
  case (Suc k)
  then have "compareLoop (ps @ [Num 0]) ps (Suc i) = 0" by simp
  then show ?case
    by (subst compareLoop.simps) (simp add: lt_js_def Let_def orZero_snoc_zero)
qed

text \<open>A component that is \<open>NaN\<close> is compared as \<open>0\<close>, on either side.\<close>

definition nanToZero :: "jsnum \<Rightarrow> jsnum" where
  "nanToZero p = (if p = NaN then Num 0 else p)"

lemma orZero_nanToZero: "orZero (at_js (map nanToZero ps) i) = orZero (at_js ps i)"
  by (cases "i < length ps"; cases "ps ! i") (auto simp: at_js_def nanToZero_def)

lemma compareLoop_nanToZero_left: "compareLoop (map nanToZero ps) qs i = compareLoop ps qs i"
proof (induction ps qs i rule: compareLoop.induct)
  case (1 parts1 parts2 i)
  show ?case
    apply (subst compareLoop.simps)
    apply (subst (2) compareLoop.simps)
    using 1 by (simp add: orZero_nanToZero Let_def)
qed

lemma compareLoop_nanToZero_right: "compareLoop ps (map nanToZero qs) i = compareLoop ps qs i"
proof (induction ps qs i rule: compareLoop.induct)
  case (1 parts1 parts2 i)
  show ?case
    apply (subst compareLoop.simps)
    apply (subst (2) compareLoop.simps)
    using 1 by (simp add: orZero_nanToZero Let_def)
qed

text \<open>A well-formed version component: a non-empty string of decimal digits.\<close>

definition isDigits :: "string \<Rightarrow> bool" where
  "isDigits s = (s \<noteq> [] \<and> list_all isDigit s)"

lemma isDigits_no_dot: "isDigits s \<Longrightarrow> CHR ''.'' \<notin> set s"
  by (auto simp: isDigits_def isDigit_def list_all_iff)

lemma isDigits_no_plus: "isDigits s \<Longrightarrow> CHR ''+'' \<notin> set s"
  by (auto simp: isDigits_def isDigit_def list_all_iff)

lemma Number_js_digits_not_NaN: "isDigits s \<Longrightarrow> Number_js s \<noteq> NaN"
  by (auto simp: isDigits_def Number_js_def toDouble_def Let_def)

lemma Number_js_tagged: "Number_js (c @ CHR ''+'' # t) = NaN"
  by (auto simp: Number_js_def isDigit_def)

text \<open>
  A component that \<open>Number\<close> reads as \<open>NaN\<close> whatever follows its first character: an ASCII
  character that begins no numeric literal (no digit, sign, decimal point or white space,
  nor the \<open>I\<close> of \<open>Infinity\<close>).
\<close>

definition unreadable :: "string \<Rightarrow> bool" where
  "unreadable s =
     (case s of
        [] \<Rightarrow> False
      | c # cs \<Rightarrow> (of_char c :: nat) < 128 \<and> \<not> isDigit c \<and> \<not> isWhiteSpace c
                 \<and> c \<notin> set ''+-.I'')"

lemma Number_js_unreadable: "unreadable s \<Longrightarrow> Number_js s = NaN"
  by (cases s) (simp_all add: unreadable_def Number_js_def)

lemma compareLoop_tagged:
  assumes "C \<noteq> NaN"
  shows "compareLoop [A, B, NaN] [A, B, C] 0 = (if C = Num 0 then 0 else - 1)"
  using assms by (cases C) (simp_all add: compareLoop.simps at_js_def lt_js_def)

lemma compare_tagged:
  assumes "isDigits a" "isDigits b" "isDigits c" "CHR ''.'' \<notin> set t"
  shows "compareVersions (a @ ''.'' @ b @ ''.'' @ c @ ''+'' @ t)
           (getVersion (a @ ''.'' @ b @ ''.'' @ c @ ''+'' @ t))
         = (if Number_js c = Num 0 then 0 else - 1)"
proof -
  let ?v = "a @ ''.'' @ b @ ''.'' @ c"
  have np: "CHR ''+'' \<notin> set ?v"
    using assms by (auto dest: isDigits_no_plus)
  have "getVersion (?v @ CHR ''+'' # t) = ?v"
    using getVersion_no_plus [OF np] by (simp only: getVersion_suffix)
  then have g: "getVersion (a @ ''.'' @ b @ ''.'' @ c @ ''+'' @ t) = ?v" by simp
  have s1: "split_js CHR ''.'' (a @ ''.'' @ b @ ''.'' @ c @ ''+'' @ t) = [a, b, c @ ''+'' @ t]"
    using assms by (simp add: split_js_prefix split_js_no_sep isDigits_no_dot)
  have s2: "split_js CHR ''.'' ?v = [a, b, c]"
    using assms by (simp add: split_js_prefix split_js_no_sep isDigits_no_dot)
  show ?thesis
    unfolding g compareVersions_def s1 s2
    using compareLoop_tagged [OF Number_js_digits_not_NaN [OF assms(3)]]
    by (simp add: Number_js_tagged)
qed

lemma compare_missing_component:
  "compareVersions v (v @ ''.0'') = 0 \<and> compareVersions (v @ ''.0'') v = 0"
proof -
  have "split_js CHR ''.'' (v @ ''.0'') = split_js CHR ''.'' v @ [''0'']"
    using split_js_append [of "CHR ''.''" v "''0''"] by simp
  moreover have "Number_js ''0'' = Num 0"
    by (simp add: Number_js_def isDigit_def digitVal_def toDouble_def)
  ultimately show ?thesis
    by (simp add: compareVersions_def compareLoop_snoc_zero_left compareLoop_snoc_zero_right)
qed

lemma compare_nan_component:
  assumes "Number_js c = NaN" "CHR ''.'' \<notin> set c"
  shows "compareVersions (a @ ''.'' @ c @ ''.'' @ b) v2 = compareVersions (a @ ''.0.'' @ b) v2"
proof -
  let ?A = "map Number_js (split_js CHR ''.'' a)"
  let ?B = "map Number_js (split_js CHR ''.'' b)"
  have z: "Number_js ''0'' = Num 0"
    by (simp add: Number_js_def isDigit_def digitVal_def toDouble_def)
  have s1: "map Number_js (split_js CHR ''.'' (a @ ''.'' @ c @ ''.'' @ b)) = ?A @ NaN # ?B"
    using split_js_append [of "CHR ''.''" a "c @ ''.'' @ b"]
          split_js_prefix [OF assms(2), of b] assms(1) by simp
  have s2: "map Number_js (split_js CHR ''.'' (a @ ''.0.'' @ b)) = ?A @ Num 0 # ?B"
    using split_js_append [of "CHR ''.''" a "''0.'' @ b"]
          split_js_prefix [of "CHR ''.''" "''0''" b] z by simp
  have "map nanToZero (?A @ NaN # ?B) = map nanToZero (?A @ Num 0 # ?B)"
    by (simp add: nanToZero_def)
  then have "compareLoop (?A @ NaN # ?B) qs 0 = compareLoop (?A @ Num 0 # ?B) qs 0" for qs
    by (metis compareLoop_nanToZero_left)
  then show ?thesis unfolding compareVersions_def s1 s2 by blast
qed




text \<open>
  C10 (as amended). \<open>compareVersions\<close> parses each dotted component with \<open>Number\<close>; a
  component that does not parse (\<open>NaN\<close>) is replaced by \<open>0\<close> through \<open>|| 0\<close> before it is
  compared, so it compares exactly as the component \<open>0\<close> does, on either side.
  \<open>compareVersions("1.x.0", "1.9.0")\<close> is \<open>-1\<close> (not \<open>0\<close>), \<open>compareVersions("1.x.0", "1.0.0")\<close>
  is \<open>0\<close>, and \<open>validateVersion\<close> accepts \<open>"1.x.0"\<close>.
\<close>

theorem C10_nan_component_is_zero:
  "(\<forall>ps qs i. compareLoop (map nanToZero ps) qs i = compareLoop ps qs i
              \<and> compareLoop ps (map nanToZero qs) i = compareLoop ps qs i)
   \<and> (\<forall>a c b v2. unreadable c \<and> CHR ''.'' \<notin> set c \<longrightarrow>
         compareVersions (a @ ''.'' @ c @ ''.'' @ b) v2 = compareVersions (a @ ''.0.'' @ b) v2)
   \<and> Number_js ''x'' = NaN
   \<and> compareVersions ''1.x.0'' ''1.9.0'' = - 1
   \<and> compareVersions ''1.x.0'' ''1.0.0'' = 0
   \<and> validateVersion ''1.x.0'' = Inr ()"
proof -
  have "Number_js ''x'' = NaN \<and> compareVersions ''1.x.0'' ''1.9.0'' = - 1
        \<and> compareVersions ''1.x.0'' ''1.0.0'' = 0 \<and> validateVersion ''1.x.0'' = Inr ()"
    by (simp add: version_eval)
  moreover have "compareVersions (a @ ''.'' @ c @ ''.'' @ b) v2 = compareVersions (a @ ''.0.'' @ b) v2"
    if "unreadable c" "CHR ''.'' \<notin> set c" for a c b v2
    by (rule compare_nan_component [OF Number_js_unreadable [OF that(1)] that(2)])
  ultimately show ?thesis
    using compareLoop_nanToZero_left compareLoop_nanToZero_right by blast
qed

theorem C10_witness:
  "unreadable ''x'' \<and> CHR ''.'' \<notin> set ''x''
   \<and> compareVersions (''1'' @ ''.'' @ ''x'' @ ''.'' @ ''0'') ''1.9.0''
       = compareVersions (''1'' @ ''.0.'' @ ''0'') ''1.9.0''"
proof -
  have h: "unreadable ''x'' \<and> CHR ''.'' \<notin> set ''x''"
    by (simp add: unreadable_def isDigit_def isWhiteSpace_def)
  with C10_nan_component_is_zero show ?thesis by blast
qed

theorem C10_counterexample:
  "compareVersions ''1.x.0'' ''1.9.0'' \<noteq> 0 \<and> compareVersions ''1.x.0'' ''1.9.0'' = - 1"
  by (simp add: version_eval)

section \<open>Properties of the hash calculator\<close>

lemma andThen_Inr_iff: "andThen r f = Inr y \<longleftrightarrow> (\<exists>x. r = Inr x \<and> f x = Inr y)"
  by (cases r) (auto simp: andThen_def)

lemma andThen_Inl [simp]: "andThen (Inl e) f = Inl e"
  by (simp add: andThen_def)

lemma andThen_Inr [simp]: "andThen (Inr x) f = f x"
  by (simp add: andThen_def)

lemma remove0x_prefixed [simp]: "remove0x (CHR ''0'' # CHR ''x'' # s) = s"
  by simp

lemma concat_hex_hashes:
  "concat_hex [''0x1901'', ''0x'' @ d, ''0x'' @ m] = ''0x1901'' @ d @ m"
  by (simp add: concat_hex_def)

lemma compareLoop_triple:
  "compareLoop [Num x, Num y, Num z] [Num 1, Num 2, Num 0] 0 \<le> 0
     \<longleftrightarrow> (x < 1 \<or> (x = 1 \<and> (y < 2 \<or> (y = 2 \<and> z = 0))))"
  by (simp add: compareLoop.simps at_js_def lt_js_def Let_def)

lemma isVersionLte_triple:
  assumes "isDigits a" "isDigits b" "isDigits c"
    and "Number_js a = Num x" "Number_js b = Num y" "Number_js c = Num z"
  shows "isVersionLte (a @ ''.'' @ b @ ''.'' @ c) ''1.2.0''
           \<longleftrightarrow> (x < 1 \<or> (x = 1 \<and> (y < 2 \<or> (y = 2 \<and> z = 0))))"
proof -
  have s: "split_js CHR ''.'' (a @ ''.'' @ b @ ''.'' @ c) = [a, b, c]"
    using assms(1-3) by (simp add: split_js_prefix split_js_no_sep isDigits_no_dot)
  have t: "map Number_js (split_js CHR ''.'' ''1.2.0'') = [Num 1, Num 2, Num 0]"
    by (simp add: Number_js_def isDigit_def digitVal_def toDouble_def)
  show ?thesis
    unfolding isVersionLte_def compareVersions_def s t
    using compareLoop_triple [of x y z] assms(4-6) by simp
qed

text \<open>
  C2. \<open>calculateDomainHash\<close> is the hash of the ABI encoding of the legacy type hash and
  the Safe address when the cleaned version is at most 1.2.0, and then does not depend on
  the chain id; otherwise it is the hash of the encoding of the current type hash, the
  chain id and the address. It returns whenever the encoder and the hash do. For a dotted
  triple of digit strings (with or without a suffix), the cleaned version is at most 1.2.0
  exactly when the triple of its numbers is at most (1, 2, 0) in lexicographic order.
\<close>

theorem C2_domain_hash:
  "(isVersionLte (getVersion version) ''1.2.0'' \<longrightarrow>
      calculateDomainHash keccak256 enc chainId safeAddress version
        = andThen (enc [Bytes32 DOMAIN_SEPARATOR_TYPEHASH_OLD, AddressArg safeAddress]) keccak256
      \<and> calculateDomainHash keccak256 enc chainId' safeAddress version
        = calculateDomainHash keccak256 enc chainId safeAddress version)
   \<and> (\<not> isVersionLte (getVersion version) ''1.2.0'' \<longrightarrow>
      calculateDomainHash keccak256 enc chainId safeAddress version
        = andThen (enc [Bytes32 DOMAIN_SEPARATOR_TYPEHASH, Uint256 chainId, AddressArg safeAddress])
            keccak256)
   \<and> (\<forall>a b c t x y z.
        isDigits a \<and> isDigits b \<and> isDigits c
        \<and> Number_js a = Num x \<and> Number_js b = Num y \<and> Number_js c = Num z
        \<and> (version = a @ ''.'' @ b @ ''.'' @ c \<or> version = a @ ''.'' @ b @ ''.'' @ c @ ''+'' @ t)
        \<longrightarrow> (isVersionLte (getVersion version) ''1.2.0''
              \<longleftrightarrow> (x < 1 \<or> (x = 1 \<and> (y < 2 \<or> (y = 2 \<and> z = 0))))))"
proof -
  have clean: "getVersion (a @ ''.'' @ b @ ''.'' @ c) = a @ ''.'' @ b @ ''.'' @ c
               \<and> getVersion (a @ ''.'' @ b @ ''.'' @ c @ ''+'' @ t) = a @ ''.'' @ b @ ''.'' @ c"
    if "isDigits a" "isDigits b" "isDigits c" for a b c t
  proof -
    have np: "CHR ''+'' \<notin> set (a @ ''.'' @ b @ ''.'' @ c)"
      using that by (auto dest: isDigits_no_plus)
    have "getVersion ((a @ ''.'' @ b @ ''.'' @ c) @ CHR ''+'' # t) = a @ ''.'' @ b @ ''.'' @ c"
      using getVersion_no_plus [OF np] by (simp only: getVersion_suffix)
    then show ?thesis using getVersion_no_plus [OF np] by simp
  qed
  have triple: "isVersionLte (getVersion version) ''1.2.0''
                  \<longleftrightarrow> (x < 1 \<or> (x = 1 \<and> (y < 2 \<or> (y = 2 \<and> z = 0))))"
    if "isDigits a" "isDigits b" "isDigits c"
      "Number_js a = Num x" "Number_js b = Num y" "Number_js c = Num z"
      "version = a @ ''.'' @ b @ ''.'' @ c \<or> version = a @ ''.'' @ b @ ''.'' @ c @ ''+'' @ t"
    for a b c t x y z
  proof -
    have "getVersion version = a @ ''.'' @ b @ ''.'' @ c"
      using that(7) clean [OF that(1-3)] by metis
    then show ?thesis
      using isVersionLte_triple [OF that(1-6)] by (simp only:)
  qed
  have legacy: "calculateDomainHash keccak256 enc cid safeAddress version
        = andThen (enc [Bytes32 DOMAIN_SEPARATOR_TYPEHASH_OLD, AddressArg safeAddress]) keccak256"
    if "isVersionLte (getVersion version) ''1.2.0''" for cid
    using that by (simp add: calculateDomainHash_def Let_def)
  have current: "calculateDomainHash keccak256 enc chainId safeAddress version
        = andThen (enc [Bytes32 DOMAIN_SEPARATOR_TYPEHASH, Uint256 chainId, AddressArg safeAddress])
            keccak256"
    if "\<not> isVersionLte (getVersion version) ''1.2.0''"
    using that by (simp add: calculateDomainHash_def Let_def)
  show ?thesis
    using triple legacy current by (intro conjI impI allI) (simp, simp, simp, blast)
qed

theorem C2_witness:
  "isVersionLte (getVersion ''1.2.0'') ''1.2.0''
   \<and> calculateDomainHash (\<lambda>s. Inr s) (\<lambda>as. Inr ''0xab'') 1 ZERO_ADDRESS ''1.2.0''
       = calculateDomainHash (\<lambda>s. Inr s) (\<lambda>as. Inr ''0xab'') 5 ZERO_ADDRESS ''1.2.0''
   \<and> \<not> isVersionLte (getVersion ''1.3.0+L2'') ''1.2.0''
   \<and> calculateDomainHash (\<lambda>s. Inr s) (\<lambda>as. Inr ''0xab'') 1 ZERO_ADDRESS ''1.3.0+L2''
       = andThen ((\<lambda>as. Inr ''0xab'')
                    [Bytes32 DOMAIN_SEPARATOR_TYPEHASH, Uint256 1, AddressArg ZERO_ADDRESS])
           (\<lambda>s. Inr s)"
proof -
  have a: "isVersionLte (getVersion ''1.2.0'') ''1.2.0''"
    by (simp add: version_eval)
  have b: "\<not> isVersionLte (getVersion ''1.3.0+L2'') ''1.2.0''"
    by (simp add: version_eval)
  from a C2_domain_hash [of "''1.2.0''" "\<lambda>s. Inr s" "\<lambda>as. Inr ''0xab''" 5 ZERO_ADDRESS 1]
  have c: "calculateDomainHash (\<lambda>s. Inr s) (\<lambda>as. Inr ''0xab'') 1 ZERO_ADDRESS ''1.2.0''
       = calculateDomainHash (\<lambda>s. Inr s) (\<lambda>as. Inr ''0xab'') 5 ZERO_ADDRESS ''1.2.0''"
    by blast
  from b C2_domain_hash [of "''1.3.0+L2''" "\<lambda>s. Inr s" "\<lambda>as. Inr ''0xab''" 1 ZERO_ADDRESS 1]
  have d: "calculateDomainHash (\<lambda>s. Inr s) (\<lambda>as. Inr ''0xab'') 1 ZERO_ADDRESS ''1.3.0+L2''
       = andThen ((\<lambda>as. Inr ''0xab'')
                    [Bytes32 DOMAIN_SEPARATOR_TYPEHASH, Uint256 1, AddressArg ZERO_ADDRESS])
           (\<lambda>s. Inr s)"
    by blast
  show ?thesis using a b c d by blast
qed

text \<open>
  C1. When \<open>validateVersion\<close> accepts the version, \<open>calculateSafeTxHash\<close> returns a triple
  exactly when the domain hash, the message hash and the final hash are computed, and the
  triple it returns holds these: its \<open>safeTxHash\<close> is \<open>keccak256\<close> of \<open>0x1901\<close> followed by
  its \<open>domainHash\<close> and its \<open>messageHash\<close> (\<open>concat\<close> drops their \<open>0x\<close> prefixes). When
  \<open>validateVersion\<close> throws, so does \<open>calculateSafeTxHash\<close>.
\<close>

theorem C1_safe_tx_hash:
  "(validateVersion version = Inr () \<longrightarrow>
      (calculateSafeTxHash keccak256 enc chainId safeAddress txData version = Inr r
        \<longleftrightarrow> calculateDomainHash keccak256 enc chainId safeAddress version = Inr (domainHash r)
            \<and> calculateMessageHash keccak256 enc txData version = Inr (messageHash r)
            \<and> keccak256 (concat_hex [''0x1901'', domainHash r, messageHash r])
                = Inr (safeTxHash r)))
   \<and> (\<forall>e. validateVersion version = Inl e \<longrightarrow>
          calculateSafeTxHash keccak256 enc chainId safeAddress txData version = Inl e)
   \<and> (\<forall>d m. concat_hex [''0x1901'', ''0x'' @ d, ''0x'' @ m] = ''0x1901'' @ d @ m)"
  by (auto simp: calculateSafeTxHash_def andThen_Inr_iff concat_hex_def)

theorem C1_witness:
  "validateVersion ''1.3.0'' = Inr ()
   \<and> calculateSafeTxHash (\<lambda>s. Inr s) (\<lambda>as. Inr ''0xab'') 1 ZERO_ADDRESS
        \<lparr> tx_to = ZERO_ADDRESS, tx_value = StringV ''0'', tx_data = ''0x'', tx_operation = 0,
          tx_safeTxGas = StringV ''0'', tx_baseGas = StringV ''0'', tx_gasPrice = StringV ''0'',
          tx_gasToken = ZERO_ADDRESS, tx_refundReceiver = ZERO_ADDRESS,
          tx_nonce = StringV ''434'' \<rparr> ''1.3.0''
       = Inr \<lparr> domainHash = ''0xab'', messageHash = ''0xab'', safeTxHash = ''0x1901abab'' \<rparr>"
proof -
  let ?k = "\<lambda>s::string. (Inr s :: exn + string)"
  let ?enc = "\<lambda>as::abi_arg list. (Inr ''0xab'' :: exn + string)"
  let ?tx = "\<lparr> tx_to = ZERO_ADDRESS, tx_value = StringV ''0'', tx_data = ''0x'', tx_operation = 0,
          tx_safeTxGas = StringV ''0'', tx_baseGas = StringV ''0'', tx_gasPrice = StringV ''0'',
          tx_gasToken = ZERO_ADDRESS, tx_refundReceiver = ZERO_ADDRESS,
          tx_nonce = StringV ''434'' \<rparr>"
  let ?r = "\<lparr> domainHash = ''0xab'', messageHash = ''0xab'', safeTxHash = ''0x1901abab'' \<rparr>"
  have v: "validateVersion ''1.3.0'' = Inr ()"
    by (simp add: version_eval)
  have d: "calculateDomainHash ?k ?enc 1 ZERO_ADDRESS ''1.3.0'' = Inr (domainHash ?r)"
    by (simp add: calculateDomainHash_def Let_def)
  have b: "BigInt_string ''0'' = Inr 0 \<and> BigInt_string ''434'' = Inr 434"
    by (simp add: BigInt_string_def trim_js_def isWhiteSpace_def startsWith_def parseDigits_def
          hexDigitVal_def)
  have m: "calculateMessageHash ?k ?enc ?tx ''1.3.0'' = Inr (messageHash ?r)"
    by (simp add: calculateMessageHash_def Let_def b)
  have h: "?k (concat_hex [''0x1901'', domainHash ?r, messageHash ?r]) = Inr (safeTxHash ?r)"
    by (simp add: concat_hex_def)
  from C1_safe_tx_hash [of "''1.3.0''" ?k ?enc 1 ZERO_ADDRESS ?tx ?r] v d m h
  have "calculateSafeTxHash ?k ?enc 1 ZERO_ADDRESS ?tx ''1.3.0'' = Inr ?r" by blast
  with v show ?thesis by blast
qed

section \<open>Properties of the security checks\<close>

lemma toLowerCase_ZERO_ADDRESS: "toLowerCase ZERO_ADDRESS = ZERO_ADDRESS"
  by (simp add: toLowerCase_def toLowerChar_def ZERO_ADDRESS_def)

lemma includes_non_zero: "includes_js GAS_WARNING_PRICE ''non-zero''"
  by (simp add: GAS_WARNING_PRICE_def startsWith_def)

text \<open>
  The zero address with its \<open>x\<close> in upper case: the only other string that differs from
  \<open>ZERO_ADDRESS\<close> in letter case alone.
\<close>

definition ZERO_ADDRESS_UPPER :: string where
  "ZERO_ADDRESS_UPPER = ''0X0000000000000000000000000000000000000000''"

lemma code_of_toLowerChar:
  "(of_char (toLowerChar c) :: nat) =
     (let n = (of_char c :: nat)
      in if (65 \<le> n \<and> n \<le> 90) \<or> (192 \<le> n \<and> n \<le> 222 \<and> n \<noteq> 215) then n + 32 else n)"
  by (simp add: toLowerChar_def Let_def)

lemma toLowerChar_eq_zero: "toLowerChar c = CHR ''0'' \<longleftrightarrow> c = CHR ''0''"
proof -
  have "toLowerChar c = CHR ''0'' \<longleftrightarrow> (of_char (toLowerChar c) :: nat) = of_char CHR ''0''"
    by (simp only: of_char_eq_iff)
  also have "\<dots> \<longleftrightarrow> (of_char c :: nat) = of_char CHR ''0''"
    by (simp add: code_of_toLowerChar Let_def)
  also have "\<dots> \<longleftrightarrow> c = CHR ''0''"
    by (simp only: of_char_eq_iff)
  finally show ?thesis .
qed

lemma toLowerChar_eq_x: "toLowerChar c = CHR ''x'' \<longleftrightarrow> c = CHR ''x'' \<or> c = CHR ''X''"
proof -
  have "toLowerChar c = CHR ''x'' \<longleftrightarrow> (of_char (toLowerChar c) :: nat) = of_char CHR ''x''"
    by (simp only: of_char_eq_iff)
  also have "\<dots> \<longleftrightarrow> (of_char c :: nat) = of_char CHR ''x'' \<or> (of_char c :: nat) = of_char CHR ''X''"
    by (auto simp add: code_of_toLowerChar Let_def)
  also have "\<dots> \<longleftrightarrow> c = CHR ''x'' \<or> c = CHR ''X''"
    by (simp only: of_char_eq_iff)
  finally show ?thesis .
qed

lemma toLowerCase_zero_address:
  "toLowerCase s = toLowerCase ZERO_ADDRESS \<longleftrightarrow> s = ZERO_ADDRESS \<or> s = ZERO_ADDRESS_UPPER"
  unfolding toLowerCase_ZERO_ADDRESS
  unfolding toLowerCase_def ZERO_ADDRESS_def ZERO_ADDRESS_UPPER_def
  by (auto simp: map_eq_Cons_conv toLowerChar_eq_zero toLowerChar_eq_x)

lemma checkGasTokenAttack_throws:
  "BigInt_js gasPrice = Inl e \<Longrightarrow> checkGasTokenAttack gasPrice gasTok refundRecv = Inl e"
  by (simp add: checkGasTokenAttack_def)


lemma BigInt_1gwei: "BigInt_js (StringV ''1000000000'') = Inr 1000000000"
  by (simp add: BigInt_string_def trim_js_def isWhiteSpace_def startsWith_def parseDigits_def
        hexDigitVal_def)


text \<open>
  The claim as first stated fails on two inputs. A negative gas price is non-zero, yet the
  test \<open>gasPriceBigInt > 0n\<close> reads it as zero: both addresses custom and the gas price
  \<open>-5\<close> give \<open>high\<close> with one warning, not \<open>critical\<close>. And with both addresses zero the
  result is not \<open>none\<close> for every gas price: on \<open>abc\<close> the function throws.
\<close>

theorem C4_counterexample:
  "checkGasTokenAttack (StringV ''-5'')
     ''0xA0b86991c6218b36c1d19D4a2e9Eb0cE3606eB48''
     ''0x1234567890123456789012345678901234567890''
   = Inr \<lparr> usesCustomGasToken = True, usesCustomRefundReceiver = True,
           hasNonZeroGasPrice = False,
           gt_gasToken = ''0xA0b86991c6218b36c1d19D4a2e9Eb0cE3606eB48'',
           gt_refundReceiver = ''0x1234567890123456789012345678901234567890'',
           gt_gasPrice = ''-5'', riskLevel = High, warnings = [GAS_WARNING_BOTH],
           gt_warningLevel = Some High \<rparr>
   \<and> BigInt_js (StringV ''-5'') = Inr (- 5)
   \<and> checkGasTokenAttack (StringV ''abc'') ZERO_ADDRESS ZERO_ADDRESS
       = Inl (cannotConvert ''abc'')"
  by (simp add: checkGasTokenAttack_def BigInt_string_def trim_js_def isWhiteSpace_def
        startsWith_def parseDigits_def hexDigitVal_def andThen_def Let_def
        toLowerCase_def toLowerChar_def ZERO_ADDRESS_def)

text \<open>
  The severity order \<open>none < low < medium < high < critical\<close>. \<open>info\<close> and an absent
  level carry no risk.
\<close>

fun severity :: "Level \<Rightarrow> nat" where
  "severity NoRisk = 0"
| "severity Info = 0"
| "severity Low = 1"
| "severity Medium = 2"
| "severity High = 3"
| "severity Critical = 4"

fun severityOpt :: "Level option \<Rightarrow> nat" where
  "severityOpt None = 0"
| "severityOpt (Some l) = severity l"

lemma overallOf_max:
  "severity (overallOf dcl gtl oml mgl)
     = max (severityOpt dcl) (max (severity gtl) (max (severity oml) (severity mgl)))
   \<and> overallOf dcl gtl oml mgl \<noteq> Info"
proof -
  have a: "overallOf dcl gtl oml mgl \<noteq> Info"
    by (simp add: overallOf_def)
  have b: "severity (overallOf dcl gtl oml mgl)
     = max (severityOpt dcl) (max (severity gtl) (max (severity oml) (severity mgl)))"
    by (cases dcl; cases gtl; cases oml; cases mgl)
       (simp_all add: overallOf_def, (case_tac a; simp)+)
  show ?thesis using a b by simp
qed

lemma checkDelegateCall_warning:
  "dc_warning (checkDelegateCall operation to) \<noteq> None
     \<longleftrightarrow> dc_warningLevel (checkDelegateCall operation to) \<noteq> None"
  by (simp add: checkDelegateCall_def)

lemma analyzeSecurity_Inr:
  "analyzeSecurity dfd txData = Inr r \<Longrightarrow>
     checkGasTokenAttack (tx_gasPrice txData) (tx_gasToken txData) (tx_refundReceiver txData)
       = Inr (gasToken r)
     \<and> delegateCall r = checkDelegateCall (tx_operation txData) (tx_to txData)
     \<and> ownerModification r = checkOwnerModifications (tx_data txData)
     \<and> moduleGuard r = checkModuleGuardOperations dfd (tx_data txData)
     \<and> overallRisk r = overallOf (dc_warningLevel (delegateCall r)) (riskLevel (gasToken r))
          (om_warningLevel (ownerModification r)) (mg_warningLevel (moduleGuard r))
     \<and> requiresCarefulReview r =
         (overallRisk r = Critical \<or> overallRisk r = High
          \<or> dc_warningLevel (delegateCall r) \<noteq> None
          \<or> length (warnings (gasToken r)) > 0 \<or> modifiesOwners (ownerModification r)
          \<or> hasModuleOperation (moduleGuard r) \<or> hasGuardOperation (moduleGuard r))"
  by (auto simp: analyzeSecurity_def Let_def andThen_Inr_iff)

lemma analyzeSecurity_total:
  "(\<exists>r. analyzeSecurity dfd txData = Inr r) \<longleftrightarrow> (\<exists>p. BigInt_js (tx_gasPrice txData) = Inr p)"
  by (auto simp: analyzeSecurity_def Let_def andThen_Inr_iff checkGasTokenAttack_def)

text \<open>
  C5. Whenever \<open>analyzeSecurity\<close> returns (it does exactly when the gas price can be read
  as an integer), its result holds the results of the four checks, \<open>overallRisk\<close> is the
  maximum of their severities in the order \<open>none < low < medium < high < critical\<close>, and
  \<open>requiresCarefulReview\<close> is true exactly when \<open>overallRisk\<close> is \<open>high\<close> or \<open>critical\<close>, or
  the delegate-call check produced a warning, or the gas-token warning list is not empty,
  or the owner check matched, or the module/guard check matched.
\<close>

theorem C5_combiner:
  "(analyzeSecurity dfd txData = Inr r \<longrightarrow>
      delegateCall r = checkDelegateCall (tx_operation txData) (tx_to txData)
      \<and> checkGasTokenAttack (tx_gasPrice txData) (tx_gasToken txData) (tx_refundReceiver txData)
          = Inr (gasToken r)
      \<and> ownerModification r = checkOwnerModifications (tx_data txData)
      \<and> moduleGuard r = checkModuleGuardOperations dfd (tx_data txData)
      \<and> severity (overallRisk r)
          = max (severityOpt (dc_warningLevel (delegateCall r)))
              (max (severity (riskLevel (gasToken r)))
                 (max (severity (om_warningLevel (ownerModification r)))
                      (severity (mg_warningLevel (moduleGuard r)))))
      \<and> overallRisk r \<noteq> Info
      \<and> requiresCarefulReview r =
          (overallRisk r = High \<or> overallRisk r = Critical
           \<or> dc_warning (delegateCall r) \<noteq> None
           \<or> warnings (gasToken r) \<noteq> []
           \<or> modifiesOwners (ownerModification r)
           \<or> hasModuleOperation (moduleGuard r) \<or> hasGuardOperation (moduleGuard r)))
   \<and> ((\<exists>r'. analyzeSecurity dfd txData = Inr r')
        \<longleftrightarrow> (\<exists>p. BigInt_js (tx_gasPrice txData) = Inr p))"
proof (intro conjI impI)
  assume a: "analyzeSecurity dfd txData = Inr r"
  note f = analyzeSecurity_Inr [OF a]
  show "delegateCall r = checkDelegateCall (tx_operation txData) (tx_to txData)"
    using f by simp
  show "checkGasTokenAttack (tx_gasPrice txData) (tx_gasToken txData) (tx_refundReceiver txData)
          = Inr (gasToken r)"
    using f by simp
  show "ownerModification r = checkOwnerModifications (tx_data txData)"
    using f by simp
  show "moduleGuard r = checkModuleGuardOperations dfd (tx_data txData)"
    using f by simp
  show "severity (overallRisk r)
          = max (severityOpt (dc_warningLevel (delegateCall r)))
              (max (severity (riskLevel (gasToken r)))
                 (max (severity (om_warningLevel (ownerModification r)))
                      (severity (mg_warningLevel (moduleGuard r)))))"
    using f overallOf_max by simp
  show "overallRisk r \<noteq> Info"
    using f overallOf_max by simp
  have "dc_warning (delegateCall r) \<noteq> None \<longleftrightarrow> dc_warningLevel (delegateCall r) \<noteq> None"
    using f checkDelegateCall_warning by simp
  then show "requiresCarefulReview r =
          (overallRisk r = High \<or> overallRisk r = Critical
           \<or> dc_warning (delegateCall r) \<noteq> None
           \<or> warnings (gasToken r) \<noteq> []
           \<or> modifiesOwners (ownerModification r)
           \<or> hasModuleOperation (moduleGuard r) \<or> hasGuardOperation (moduleGuard r))"
    using f by auto
next
  show "(\<exists>r'. analyzeSecurity dfd txData = Inr r')
        \<longleftrightarrow> (\<exists>p. BigInt_js (tx_gasPrice txData) = Inr p)"
    by (rule analyzeSecurity_total)
qed


theorem C5_witness:
  "\<exists>r. analyzeSecurity (\<lambda>abi d. Inl (LibError ''AbiFunctionSignatureNotFound''))
          \<lparr> tx_to = ''0x1234567890123456789012345678901234567890'', tx_value = StringV ''0'',
            tx_data = ''0x'', tx_operation = 1, tx_safeTxGas = StringV ''0'',
            tx_baseGas = StringV ''0'', tx_gasPrice = StringV ''0'', tx_gasToken = ZERO_ADDRESS,
            tx_refundReceiver = ZERO_ADDRESS, tx_nonce = StringV ''1'' \<rparr> = Inr r
       \<and> overallRisk r = Critical \<and> requiresCarefulReview r
       \<and> \<not> dc_isTrusted (delegateCall r) \<and> dc_warning (delegateCall r) \<noteq> None"
proof -
  let ?dfd = "\<lambda>(abi::string) (d::string). (Inl (LibError ''AbiFunctionSignatureNotFound'') :: exn + string list option)"
  let ?tx = "\<lparr> tx_to = ''0x1234567890123456789012345678901234567890'', tx_value = StringV ''0'',
            tx_data = ''0x'', tx_operation = 1, tx_safeTxGas = StringV ''0'',
            tx_baseGas = StringV ''0'', tx_gasPrice = StringV ''0'', tx_gasToken = ZERO_ADDRESS,
            tx_refundReceiver = ZERO_ADDRESS, tx_nonce = StringV ''1'' \<rparr>"
  have b: "BigInt_js (tx_gasPrice ?tx) = Inr 0"
    by (simp add: BigInt_string_def trim_js_def isWhiteSpace_def startsWith_def parseDigits_def
          hexDigitVal_def)
  then obtain r where r: "analyzeSecurity ?dfd ?tx = Inr r"
    using C5_combiner [of ?dfd ?tx] by blast
  have nt: "\<not> isTrustedForDelegateCall ''0x1234567890123456789012345678901234567890''"
    by (simp add: isTrustedForDelegateCall_def TRUSTED_DELEGATE_CALL_ADDRESSES_def
          MULTISEND_CALL_ONLY_def SAFE_MIGRATION_def SIGN_MESSAGE_LIB_def toLowerCase_def
          toLowerChar_def char_of_def)
  have dc: "dc_warningLevel (checkDelegateCall 1 ''0x1234567890123456789012345678901234567890'')
              = Some Critical
            \<and> \<not> dc_isTrusted (checkDelegateCall 1 ''0x1234567890123456789012345678901234567890'')
            \<and> dc_warning (checkDelegateCall 1 ''0x1234567890123456789012345678901234567890'')
                \<noteq> None"
    using nt by (simp add: checkDelegateCall_def)
  from C5_combiner [of ?dfd ?tx r] r have
    d: "delegateCall r = checkDelegateCall 1 ''0x1234567890123456789012345678901234567890''"
    and s: "severity (overallRisk r)
          = max (severityOpt (dc_warningLevel (delegateCall r)))
              (max (severity (riskLevel (gasToken r)))
                 (max (severity (om_warningLevel (ownerModification r)))
                      (severity (mg_warningLevel (moduleGuard r)))))"
    and q: "requiresCarefulReview r =
          (overallRisk r = High \<or> overallRisk r = Critical
           \<or> dc_warning (delegateCall r) \<noteq> None
           \<or> warnings (gasToken r) \<noteq> []
           \<or> modifiesOwners (ownerModification r)
           \<or> hasModuleOperation (moduleGuard r) \<or> hasGuardOperation (moduleGuard r))"
    by simp_all
  have "4 \<le> severity (overallRisk r)"
    using s d dc by simp
  then have c: "overallRisk r = Critical"
    by (cases "overallRisk r") simp_all
  show ?thesis using r c q d dc by auto
qed

section \<open>Properties of the decoded-data verifier\<close>

lemma verifyBody_consistent:
  "verifyBody parse encd jp raw d = Inr r \<Longrightarrow>
     (verified r \<longleftrightarrow> error r = None) \<and> (\<not> verified r \<longrightarrow> (\<exists>m. error r = Some m \<and> m \<noteq> []))
     \<and> reencoded r \<noteq> None"
  by (auto simp: verifyBody_def Let_def andThen_Inr_iff split: if_splits)

lemma verifyBody_throws:
  assumes "dd_parameters d \<noteq> []"
  shows "(parse (join_js '', '' (map (\<lambda>param. p_type param @ '' '' @ p_name param)
                   (dd_parameters d))) = Inl e
            \<longrightarrow> verifyBody parse encd jp raw d = Inl e)
     \<and> (parse (join_js '', '' (map (\<lambda>param. p_type param @ '' '' @ p_name param)
                   (dd_parameters d))) = Inr abi
          \<and> mapM_exn (convertArg jp) (dd_parameters d) = Inl e
            \<longrightarrow> verifyBody parse encd jp raw d = Inl e)
     \<and> (parse (join_js '', '' (map (\<lambda>param. p_type param @ '' '' @ p_name param)
                   (dd_parameters d))) = Inr abi
          \<and> mapM_exn (convertArg jp) (dd_parameters d) = Inr as
          \<and> encd (dd_method d) abi as = Inl e
            \<longrightarrow> verifyBody parse encd jp raw d = Inl e)
     \<and> (parse (join_js '', '' (map (\<lambda>param. p_type param @ '' '' @ p_name param)
                   (dd_parameters d))) = Inr abi
          \<and> mapM_exn (convertArg jp) (dd_parameters d) = Inr as
          \<and> encd (dd_method d) abi as = Inr re
            \<longrightarrow> verifyBody parse encd jp raw d =
                  Inr \<lparr> verified = (toLowerCase re = toLowerCase raw),
                        error = (if toLowerCase re = toLowerCase raw then None
                                 else Some ''Re-encoded data does not match raw data''),
                        reencoded = Some re \<rparr>)"
  using assms
  by (auto simp: verifyBody_def Let_def comp_def case_prod_unfold)




section \<open>The packed format, written out, and the round trip\<close>

text \<open>
  Modelled from the spec: the repository has no encoder for the packed MultiSend format
  (its tests build the bytes with the library). A record is the operation byte, the
  20-byte target, the value and the payload length as 32-byte big-endian words, then the
  payload; records are concatenated with nothing between them. The call wraps the packed
  bytes as the single \<open>bytes\<close> argument of \<open>multiSend\<close>: selector, offset word \<open>0x20\<close>, length
  word, the bytes, zero padding to a multiple of 32.
\<close>

record SubCall =
  sc_operation :: byte
  sc_to :: "byte list"
  sc_value :: nat
  sc_data :: "byte list"

fun beBytes :: "nat \<Rightarrow> nat \<Rightarrow> byte list" where
  "beBytes 0 v = []"
| "beBytes (Suc k) v = beBytes k (v div 256) @ [of_nat (v mod 256)]"

definition be32 :: "nat \<Rightarrow> byte list" where
  "be32 v = beBytes 32 v"

definition encodeRecord :: "SubCall \<Rightarrow> byte list" where
  "encodeRecord sc =
     [sc_operation sc] @ sc_to sc @ be32 (sc_value sc) @ be32 (length (sc_data sc)) @ sc_data sc"

definition encodePacked :: "SubCall list \<Rightarrow> byte list" where
  "encodePacked scs = concat (map encodeRecord scs)"

definition encodeMultiSendCall :: "byte list \<Rightarrow> string" where
  "encodeMultiSendCall packed =
     MULTISEND_SELECTOR
       @ hexDigits (be32 32 @ be32 (length packed) @ packed
                    @ replicate ((32 - length packed mod 32) mod 32) 0)"

text \<open>What the decoder is expected to give back for a sub-call.\<close>

definition decodedOf :: "SubCall \<Rightarrow> DecodedMultiSendTransaction" where
  "decodedOf sc =
     \<lparr> ms_operation = Num (unat (sc_operation sc)),
       ms_to = bytesToHex (sc_to sc),
       ms_value = int (sc_value sc),
       ms_data = bytesToHex (sc_data sc) \<rparr>"

text \<open>A sub-call that fits the format: a 20-byte target, a value below \<open>2^256\<close>, and a
  payload whose length is exactly representable as a JavaScript number.\<close>

definition wellFormed :: "SubCall \<Rightarrow> bool" where
  "wellFormed sc =
     (length (sc_to sc) = 20 \<and> sc_value sc < 2 ^ 256 \<and> length (sc_data sc) < 2 ^ 53)"

subsection \<open>Hexadecimal digits\<close>

lemma hexDigitVal_hexChar: "n < 16 \<Longrightarrow> hexDigitVal (hexChar n) = Some n"
  by (auto simp: hexDigitVal_def hexChar_def Let_def)

lemma not_white_hexChar: "n < 16 \<Longrightarrow> \<not> isWhiteSpace (hexChar n)"
  by (auto simp: isWhiteSpace_def hexChar_def)

lemma unat_byte_bounds: "unat (b :: byte) div 16 < 16 \<and> unat b mod 16 < 16"
proof -
  have "unat b < 256" using unsigned_less [of b] by simp
  then show ?thesis by simp
qed

lemma byte_of_nibbles: "(of_nat (unat (b :: byte) div 16 * 16 + unat b mod 16) :: byte) = b"
  by simp

lemma hexDigits_append [simp]: "hexDigits (a @ b) = hexDigits a @ hexDigits b"
  by (simp add: hexDigits_def)

lemma hexDigits_Nil [simp]: "hexDigits [] = []"
  by (simp add: hexDigits_def)

lemma hexDigits_Cons: "hexDigits (b # bs) = byteToHex b @ hexDigits bs"
  by (simp add: hexDigits_def)

lemma hexDigits_eq_Nil [simp]: "hexDigits bs = [] \<longleftrightarrow> bs = []"
  by (cases bs) (simp_all add: hexDigits_Cons byteToHex_def)

lemma pairsToBytes_hexDigits: "pairsToBytes (hexDigits bs) = Inr bs"
proof (induction bs)
  case Nil
  then show ?case by simp
next
  case (Cons b bs)
  then show ?case
    using unat_byte_bounds [of b]
    by (simp add: hexDigits_Cons byteToHex_def hexDigitVal_hexChar byte_of_nibbles)
qed

lemma hexToBytes_hexDigits: "hexToBytes (''0x'' @ hexDigits bs) = Inr bs"
  by (simp add: hexToBytes_def pairsToBytes_hexDigits)

lemma radixValue_byte:
  "radixValue 16 acc (byteToHex b @ rest) = radixValue 16 (acc * 256 + unat b) rest"
proof -
  have e: "(acc * 16 + unat b div 16) * 16 + unat b mod 16 = acc * 256 + unat b"
    by (simp add: algebra_simps)
  have "radixValue 16 acc (byteToHex b @ rest)
          = radixValue 16 ((acc * 16 + unat b div 16) * 16 + unat b mod 16) rest"
    using unat_byte_bounds [of b]
    by (simp only: byteToHex_def append_Cons append_Nil radixValue.simps hexDigitVal_hexChar
          option.case if_True)
  then show ?thesis by (simp only: e)
qed

lemma radixValue_hexDigits:
  "radixValue 16 acc (hexDigits bs) = Some (foldl (\<lambda>a b. a * 256 + unat b) acc bs)"
  by (induction bs arbitrary: acc) (simp_all add: hexDigits_Cons radixValue_byte)

lemma parseDigits_hexDigits: "bs \<noteq> [] \<Longrightarrow> parseDigits 16 (hexDigits bs) = Some (beValue bs)"
  by (simp add: parseDigits_def radixValue_hexDigits beValue_def)

lemma all_hex_hexDigits: "takeWhile (\<lambda>c. hexDigitVal c \<noteq> None) (hexDigits bs) = hexDigits bs"
proof (induction bs)
  case Nil
  then show ?case by simp
next
  case (Cons b bs)
  then show ?case
    using unat_byte_bounds [of b]
    by (simp add: hexDigits_Cons byteToHex_def hexDigitVal_hexChar)
qed

lemma parseInt16_hexDigits: "bs \<noteq> [] \<Longrightarrow> parseInt16 (hexDigits bs) = toDouble (beValue bs)"
  unfolding parseInt16_def all_hex_hexDigits Let_def
  by (simp add: parseDigits_hexDigits)

lemma last_hexDigits_not_white: "bs \<noteq> [] \<Longrightarrow> \<not> isWhiteSpace (last (hexDigits bs))"
proof (induction bs rule: rev_induct)
  case Nil
  then show ?case by simp
next
  case (snoc b bs)
  show ?case
    using unat_byte_bounds [of b]
    by (simp add: hexDigits_Cons byteToHex_def not_white_hexChar)
qed

lemma trim_js_id:
  assumes "s \<noteq> []" "\<not> isWhiteSpace (hd s)" "\<not> isWhiteSpace (last s)"
  shows "trim_js s = s"
proof -
  have a: "dropWhile isWhiteSpace s = s"
    using assms(1,2) by (cases s) simp_all
  have "dropWhile isWhiteSpace (rev s) = rev s"
    using assms(1,3) by (cases "rev s") (simp_all add: last_rev [symmetric] hd_rev)
  then show ?thesis by (simp add: trim_js_def a)
qed

lemma BigInt_string_hexDigits:
  assumes "bs \<noteq> []"
  shows "BigInt_string (''0x'' @ hexDigits bs) = Inr (int (beValue bs))"
proof -
  let ?s = "CHR ''0'' # CHR ''x'' # hexDigits bs"
  have l: "last ?s = last (hexDigits bs)" using assms by simp
  have w: "\<not> isWhiteSpace (hd ?s)" by (simp add: isWhiteSpace_def)
  have t: "trim_js ?s = ?s"
    using w last_hexDigits_not_white [OF assms] l by (intro trim_js_id) simp_all
  have "BigInt_string ?s = Inr (int (beValue bs))"
    unfolding BigInt_string_def t Let_def
    by (simp add: startsWith_def parseDigits_hexDigits [OF assms])
  then show ?thesis by simp
qed

subsection \<open>Big-endian words\<close>

lemma length_beBytes [simp]: "length (beBytes k v) = k"
  by (induction k arbitrary: v) simp_all

lemma length_be32 [simp]: "length (be32 v) = 32"
  by (simp add: be32_def)

lemma beValue_snoc: "beValue (bs @ [b]) = beValue bs * 256 + unat b"
  by (simp add: beValue_def)

lemma beValue_beBytes: "beValue (beBytes k v) = v mod 256 ^ k"
proof (induction k arbitrary: v)
  case 0
  then show ?case by (simp add: beValue_def)
next
  case (Suc k)
  have "unat (of_nat (v mod 256) :: byte) = v mod 256"
    by (simp add: unat_of_nat)
  then have "beValue (beBytes (Suc k) v) = (v div 256) mod 256 ^ k * 256 + v mod 256"
    by (simp add: beValue_snoc Suc)
  also have "\<dots> = v mod 256 ^ Suc k"
    by (simp add: mod_mult2_eq)
  finally show ?case .
qed

lemma beValue_be32: "v < 2 ^ 256 \<Longrightarrow> beValue (be32 v) = v"
proof -
  have "(256::nat) ^ 32 = 2 ^ 256" by simp
  then show "v < 2 ^ 256 \<Longrightarrow> beValue (be32 v) = v"
    by (simp add: be32_def beValue_beBytes)
qed

lemma be32_nonempty [simp]: "be32 v \<noteq> []"
  using length_be32 [of v] by (cases "be32 v") simp_all

subsection \<open>Slices of a concatenation\<close>

lemma slice_js_mid:
  "length x = start \<Longrightarrow> slice_js (x @ mid @ y) start (Num (start + length mid)) = mid"
  by (simp add: slice_js_def)

lemma slice_js_tail:
  "length x = start \<Longrightarrow> length mid \<le> n \<Longrightarrow> slice_js (x @ mid) start (Num (start + n)) = mid"
  by (simp add: slice_js_def)

text \<open>
  One pass of the loop over a well-delimited record: the text is \<open>x\<close>, two digits of
  operation, forty of target, sixty-four of value, sixty-four of length, the payload digits
  \<open>d\<close>, and whatever follows.
\<close>

lemma decodeLoop_record:
  assumes p: "p = x @ o2 @ t40 @ v64 @ l64 @ d @ y"
    and len: "length x = off0" "length o2 = 2" "length t40 = 40" "length v64 = 64"
      "length l64 = 64"
    and dl: "parseInt16 l64 = Num L" "L < 2 ^ 53" "length d = 2 * L"
    and bv: "BigInt_string (''0x'' @ v64) = Inr val"
  shows "decodeLoop p (Num off0) acc =
           decodeLoop p (Num (off0 + 170 + 2 * L))
             (acc @ [\<lparr> ms_operation = parseInt16 o2, ms_to = ''0x'' @ t40, ms_value = val,
                        ms_data = ''0x'' @ d \<rparr>])"
proof -
  have lt: "off0 < length p" using p len by simp
  have s1: "slice_js p off0 (Num (off0 + 2)) = o2"
    using len by (simp add: slice_js_def p)
  have s2: "slice_js p (off0 + 2) (Num (off0 + 42)) = t40"
    using len by (simp add: slice_js_def p)
  have s3: "slice_js p (off0 + 42) (Num (off0 + 106)) = v64"
    using len by (simp add: slice_js_def p)
  have s4: "slice_js p (off0 + 106) (Num (off0 + 170)) = l64"
    using len by (simp add: slice_js_def p)
  have big: "(2::nat) ^ 54 \<le> 2 ^ 1024" by (rule power_increasing) simp_all
  have "2 * L < 2 ^ 54" using dl(2) by simp
  then have small: "\<not> 2 ^ 1024 \<le> 2 * L" using big by linarith
  have n: "nextOffset p off0 = Num (off0 + 170 + 2 * L)"
    using small by (simp add: nextOffset_def s4 dl(1))
  have s5: "slice_js p (off0 + 170) (Num (off0 + 170 + 2 * L)) = d"
    using len dl(3) by (simp add: slice_js_def p)
  have r: "recordAt p off0 val =
             \<lparr> ms_operation = parseInt16 o2, ms_to = ''0x'' @ t40, ms_value = val,
               ms_data = ''0x'' @ d \<rparr>"
    by (simp only: recordAt_def n s1 s2 s5)
  show ?thesis
    by (simp only: decodeLoop_step [OF lt] s3 bv sum.case n r)
qed


subsection \<open>Decoding what was encoded\<close>

lemma toDouble_small: "n < 2 ^ 53 \<Longrightarrow> toDouble n = Num n"
  by (simp add: toDouble_def)

lemma length_encodeRecord:
  "length (sc_to sc) = 20 \<Longrightarrow> length (encodeRecord sc) = 1 + 20 + 32 + 32 + length (sc_data sc)"
  by (simp add: encodeRecord_def)

lemma parseInt16_byte: "parseInt16 (hexDigits [b]) = Num (unat b)"
proof -
  have "unat b < 256" using unsigned_less [of b] by simp
  then have "unat b < 2 ^ 53" by simp
  then show ?thesis
    by (simp add: parseInt16_hexDigits beValue_def toDouble_small)
qed

lemma parseInt16_be32: "L < 2 ^ 53 \<Longrightarrow> parseInt16 (hexDigits (be32 L)) = Num L"
proof -
  assume l: "L < 2 ^ 53"
  have "(2::nat) ^ 53 \<le> 2 ^ 256" by (rule power_increasing) simp_all
  then have "L < 2 ^ 256" using l by linarith
  then show ?thesis
    using l by (simp add: parseInt16_hexDigits beValue_be32 toDouble_small)
qed

lemma BigInt_string_be32:
  "v < 2 ^ 256 \<Longrightarrow> BigInt_string (''0x'' @ hexDigits (be32 v)) = Inr (int v)"
  by (simp only: BigInt_string_hexDigits [OF be32_nonempty] beValue_be32)

lemma decodeLoop_encoded_prefix:
  "list_all wellFormed scs \<Longrightarrow>
   decodeLoop (''0x'' @ hexDigits (pre @ encodePacked scs @ post)) (Num (2 + 2 * length pre)) acc
     = decodeLoop (''0x'' @ hexDigits (pre @ encodePacked scs @ post))
         (Num (2 + 2 * length (pre @ encodePacked scs))) (acc @ map decodedOf scs)"
proof (induction scs arbitrary: pre acc)
  case Nil
  then show ?case by (simp add: encodePacked_def)
next
  case (Cons sc scs)
  let ?p = "''0x'' @ hexDigits (pre @ encodePacked (sc # scs) @ post)"
  let ?L = "length (sc_data sc)"
  from Cons.prems have w: "wellFormed sc" and rest: "list_all wellFormed scs"
    by simp_all
  from w have wf: "length (sc_to sc) = 20" "sc_value sc < 2 ^ 256" "?L < 2 ^ 53"
    unfolding wellFormed_def by blast+
  have p: "?p = (''0x'' @ hexDigits pre) @ hexDigits [sc_operation sc] @ hexDigits (sc_to sc)
                 @ hexDigits (be32 (sc_value sc)) @ hexDigits (be32 ?L)
                 @ hexDigits (sc_data sc) @ hexDigits (encodePacked scs @ post)"
    by (simp add: encodePacked_def encodeRecord_def hexDigits_Cons)
  have step: "decodeLoop ?p (Num (2 + 2 * length pre)) acc =
           decodeLoop ?p (Num (2 + 2 * length pre + 170 + 2 * ?L))
             (acc @ [\<lparr> ms_operation = parseInt16 (hexDigits [sc_operation sc]),
                        ms_to = ''0x'' @ hexDigits (sc_to sc), ms_value = int (sc_value sc),
                        ms_data = ''0x'' @ hexDigits (sc_data sc) \<rparr>])"
    by (rule decodeLoop_record [OF p _ _ _ _ _ parseInt16_be32 [OF wf(3)] wf(3) _
                                   BigInt_string_be32 [OF wf(2)]])
       (simp_all add: wf)
  have d: "\<lparr> ms_operation = parseInt16 (hexDigits [sc_operation sc]),
             ms_to = ''0x'' @ hexDigits (sc_to sc), ms_value = int (sc_value sc),
             ms_data = ''0x'' @ hexDigits (sc_data sc) \<rparr> = decodedOf sc"
    by (simp add: decodedOf_def parseInt16_byte bytesToHex_def)
  have p': "?p = ''0x'' @ hexDigits ((pre @ encodeRecord sc) @ encodePacked scs @ post)"
    by (simp add: encodePacked_def)
  have o: "2 + 2 * length pre + 170 + 2 * ?L = 2 + 2 * length (pre @ encodeRecord sc)"
    by (simp add: length_encodeRecord [OF wf(1)])
  have e: "(pre @ encodeRecord sc) @ encodePacked scs = pre @ encodePacked (sc # scs)"
    by (simp add: encodePacked_def)
  have "decodeLoop ?p (Num (2 + 2 * length pre)) acc
          = decodeLoop (''0x'' @ hexDigits ((pre @ encodeRecord sc) @ encodePacked scs @ post))
              (Num (2 + 2 * length (pre @ encodeRecord sc))) (acc @ [decodedOf sc])"
    using step by (simp only: d o p' [symmetric])
  also have "\<dots> = decodeLoop (''0x'' @ hexDigits ((pre @ encodeRecord sc) @ encodePacked scs @ post))
              (Num (2 + 2 * length ((pre @ encodeRecord sc) @ encodePacked scs)))
              ((acc @ [decodedOf sc]) @ map decodedOf scs)"
    by (rule Cons.IH [OF rest])
  finally have f: "decodeLoop ?p (Num (2 + 2 * length pre)) acc
          = decodeLoop (''0x'' @ hexDigits ((pre @ encodeRecord sc) @ encodePacked scs @ post))
              (Num (2 + 2 * length ((pre @ encodeRecord sc) @ encodePacked scs)))
              ((acc @ [decodedOf sc]) @ map decodedOf scs)" .
  have e3: "(acc @ [decodedOf sc]) @ map decodedOf scs = acc @ map decodedOf (sc # scs)"
    by simp
  show ?case using f by (simp only: p' [symmetric] e e3)
qed

lemma decodeLoop_encoded:
  "list_all wellFormed scs \<Longrightarrow>
   decodeLoop (''0x'' @ hexDigits (pre @ encodePacked scs)) (Num (2 + 2 * length pre)) acc
     = Inr (acc @ map decodedOf scs)"
  using decodeLoop_encoded_prefix [of scs pre "[]" acc]
  by (simp add: decodeLoop_end)

lemma decodeBytesParam_encoded:
  assumes "length packed < 2 ^ 256"
  shows "decodeBytesParam (be32 32 @ be32 (length packed) @ packed @ pad) = Inr (bytesToHex packed)"
proof -
  let ?body = "be32 32 @ be32 (length packed) @ packed @ pad"
  have r0: "readBytes ?body 0 32 = Inr (be32 32)"
    by (simp add: readBytes_def)
  have v0: "beValue (be32 32) = 32"
    by (rule beValue_be32) simp
  have r1: "readBytes ?body 32 32 = Inr (be32 (length packed))"
    by (simp add: readBytes_def)
  have v1: "beValue (be32 (length packed)) = length packed"
    by (rule beValue_be32 [OF assms])
  have r2: "readBytes ?body (32 + 32) (length packed) = Inr packed"
    by (simp add: readBytes_def)
  have l: "length ?body = 64 + length packed + length pad"
    by simp
  show ?thesis
    unfolding decodeBytesParam_def r0 andThen_Inr Let_def v0 r1 v1 r2 l
    by (simp add: bytesToHex_def)
qed

lemma decodeFunctionData_encoded:
  assumes "length packed < 2 ^ 256"
  shows "decodeFunctionData_MULTISEND (encodeMultiSendCall packed)
           = Inr \<lparr> functionName = ''multiSend'', args = Some [bytesToHex packed] \<rparr>"
proof -
  let ?pad = "replicate ((32 - length packed mod 32) mod 32) (0 :: byte)"
  let ?body = "be32 32 @ be32 (length packed) @ packed @ ?pad"
  let ?data = "''0x8d80ff0a'' @ hexDigits ?body"
  have e: "encodeMultiSendCall packed = ?data"
    by (simp add: encodeMultiSendCall_def MULTISEND_SELECTOR_def)
  have sw: "startsWith ?data ''0x''" by (simp add: startsWith_def)
  have rm: "remove0x ?data = ''8d80ff0a'' @ hexDigits ?body" by simp
  have sel: "''0x'' @ take 8 (remove0x ?data) = MULTISEND_SELECTOR"
    by (simp add: MULTISEND_SELECTOR_def)
  have sz: "\<not> 4 > size_hex ?data - 1"
    by (simp add: size_hex_def)
  have hb: "hexToBytes (''0x'' @ drop 8 (remove0x ?data)) = Inr ?body"
    using hexToBytes_hexDigits [of ?body] by simp
  show ?thesis
    unfolding e decodeFunctionData_MULTISEND_def
    by (simp only: sw sel sz hb Let_def not_True_eq_False not_False_eq_True if_False if_True
          andThen_Inr decodeBytesParam_encoded [OF assms] simp_thms)
qed

lemma decodeMultiSend_encoded:
  assumes "list_all wellFormed scs" "length (encodePacked scs) < 2 ^ 256"
  shows "decodeMultiSend (encodeMultiSendCall (encodePacked scs)) = Some (map decodedOf scs)"
proof -
  have "decodeLoop (''0x'' @ hexDigits ([] @ encodePacked scs)) (Num (2 + 2 * length ([] :: byte list))) []
          = Inr ([] @ map decodedOf scs)"
    by (rule decodeLoop_encoded [OF assms(1)])
  then have "decodeLoop (bytesToHex (encodePacked scs)) (Num 2) [] = Inr (map decodedOf scs)"
    by (simp add: bytesToHex_def)
  then show ?thesis
    by (simp add: decodeMultiSend_def decodeFunctionData_encoded [OF assms(2)])
qed

text \<open>
  C8. For every finite sequence of sub-calls (an operation byte, a 20-byte target, a value
  below \<open>2^256\<close>, a payload), packing them as records of \<open>1 + 20 + 32 + 32 + L\<close> bytes
  with nothing between them, wrapping the packed bytes in the \<open>multiSend\<close> call and decoding
  with \<open>decodeMultiSend\<close> gives back the sequence: the operation as a number, the target
  and the payload in hexadecimal, the value as an integer. Payloads of length zero are
  included. (The payload length must be exactly representable as a JavaScript number and
  the packed length must fit a word, as for any real call data.)
\<close>

theorem C8_multisend_roundtrip:
  "(list_all wellFormed scs \<and> length (encodePacked scs) < 2 ^ 256 \<longrightarrow>
      decodeMultiSend (encodeMultiSendCall (encodePacked scs)) = Some (map decodedOf scs))
   \<and> (\<forall>sc. wellFormed sc \<longrightarrow>
         length (encodeRecord sc) = 1 + 20 + 32 + 32 + length (sc_data sc))
   \<and> encodePacked (sc # scs) = encodeRecord sc @ encodePacked scs
   \<and> encodePacked [] = []"
  using decodeMultiSend_encoded [of scs] length_encodeRecord
  by (simp add: wellFormed_def encodePacked_def)

theorem C8_witness:
  "list_all wellFormed
     [\<lparr> sc_operation = 0, sc_to = replicate 20 17, sc_value = 5, sc_data = [] \<rparr>,
      \<lparr> sc_operation = 1, sc_to = replicate 20 34, sc_value = 0, sc_data = [171, 205] \<rparr>]
   \<and> length (encodePacked
        [\<lparr> sc_operation = 0, sc_to = replicate 20 17, sc_value = 5, sc_data = [] \<rparr>,
         \<lparr> sc_operation = 1, sc_to = replicate 20 34, sc_value = 0, sc_data = [171, 205] \<rparr>])
       < 2 ^ 256
   \<and> decodeMultiSend (encodeMultiSendCall (encodePacked
        [\<lparr> sc_operation = 0, sc_to = replicate 20 17, sc_value = 5, sc_data = [] \<rparr>,
         \<lparr> sc_operation = 1, sc_to = replicate 20 34, sc_value = 0, sc_data = [171, 205] \<rparr>]))
     = Some [\<lparr> ms_operation = Num 0, ms_to = ''0x1111111111111111111111111111111111111111'',
               ms_value = 5, ms_data = ''0x'' \<rparr>,
             \<lparr> ms_operation = Num 1, ms_to = ''0x2222222222222222222222222222222222222222'',
               ms_value = 0, ms_data = ''0xabcd'' \<rparr>]"
proof -
  let ?a = "\<lparr> sc_operation = 0, sc_to = replicate 20 17, sc_value = 5, sc_data = [] \<rparr>"
  let ?b = "\<lparr> sc_operation = 1, sc_to = replicate 20 34, sc_value = 0, sc_data = [171, 205] \<rparr>"
  have w: "list_all wellFormed [?a, ?b]"
    by (simp add: wellFormed_def)
  have l: "length (encodePacked [?a, ?b]) < 2 ^ 256"
    by (simp add: encodePacked_def encodeRecord_def)
  have h: "hexDigits (replicate 20 17) = ''1111111111111111111111111111111111111111''"
    "hexDigits (replicate 20 34) = ''2222222222222222222222222222222222222222''"
    "hexDigits [171, 205] = ''abcd''"
    by code_simp+
  have d: "map decodedOf [?a, ?b] =
      [\<lparr> ms_operation = Num 0, ms_to = ''0x1111111111111111111111111111111111111111'',
         ms_value = 5, ms_data = ''0x'' \<rparr>,
       \<lparr> ms_operation = Num 1, ms_to = ''0x2222222222222222222222222222222222222222'',
         ms_value = 0, ms_data = ''0xabcd'' \<rparr>]"
    by (simp add: decodedOf_def bytesToHex_def h)
  from C8_multisend_roundtrip [of "[?a, ?b]"] w l
  have "decodeMultiSend (encodeMultiSendCall (encodePacked [?a, ?b])) = Some (map decodedOf [?a, ?b])"
    by blast
  then show ?thesis using w l by (simp only: d simp_thms)
qed

section \<open>What the decoder does with a call that is no batch, or a batch cut short\<close>

lemma not_wrapper_throws:
  assumes "take 10 data \<noteq> MULTISEND_SELECTOR"
  shows "\<exists>e. decodeFunctionData_MULTISEND data = Inl e"
proof (cases "startsWith data ''0x''")
  case False
  then show ?thesis by (simp add: decodeFunctionData_MULTISEND_def)
next
  case True
  then obtain r where r: "data = CHR ''0'' # CHR ''x'' # r"
    by (cases data; cases "tl data") (auto simp: startsWith_def)
  then have "''0x'' @ take 8 (remove0x data) = take 10 data" by simp
  then show ?thesis using assms True
    by (simp add: decodeFunctionData_MULTISEND_def Let_def)
qed

lemma BigInt_string_0x: "BigInt_string ''0x'' = Inl (cannotConvert ''0x'')"
  by (simp add: BigInt_string_def trim_js_def isWhiteSpace_def startsWith_def parseDigits_def)

lemma decodeLoop_no_value:
  assumes "off0 < length p" "length p \<le> off0 + 42"
  shows "decodeLoop p (Num off0) acc = Inl (cannotConvert ''0x'')"
proof -
  have "slice_js p (off0 + 42) (Num (off0 + 106)) = []"
    using assms(2) by (simp add: slice_js_def)
  then show ?thesis
    using BigInt_string_0x by (simp add: decodeLoop_step [OF assms(1)])
qed

lemma decodeMultiSend_cut_before_value:
  assumes wf: "list_all wellFormed scs" and part: "part \<noteq> []" "length part \<le> 21"
    and len: "length (encodePacked scs @ part) < 2 ^ 256"
  shows "decodeMultiSend (encodeMultiSendCall (encodePacked scs @ part)) = None"
proof -
  let ?p = "''0x'' @ hexDigits ([] @ encodePacked scs @ part)"
  let ?off = "2 + 2 * length ([] @ encodePacked scs)"
  have a: "decodeLoop ?p (Num (2 + 2 * length ([] :: byte list))) []
             = decodeLoop ?p (Num ?off) ([] @ map decodedOf scs)"
    by (rule decodeLoop_encoded_prefix [OF wf])
  have l1: "?off < length ?p"
    using part(1) by (cases part) simp_all
  have l2: "length ?p \<le> ?off + 42"
    using part(2) by simp
  have b: "decodeLoop ?p (Num ?off) ([] @ map decodedOf scs) = Inl (cannotConvert ''0x'')"
    by (rule decodeLoop_no_value [OF l1 l2])
  have "decodeLoop (bytesToHex (encodePacked scs @ part)) (Num 2) [] = Inl (cannotConvert ''0x'')"
    using a b by (simp add: bytesToHex_def)
  then show ?thesis
    by (simp add: decodeMultiSend_def decodeFunctionData_encoded [OF len])
qed

text \<open>A record whose payload is cut short is returned with the digits that are present.\<close>

lemma decodeLoop_short_payload:
  assumes p: "p = x @ o2 @ t40 @ v64 @ l64 @ d"
    and len: "length x = off0" "length o2 = 2" "length t40 = 40" "length v64 = 64"
      "length l64 = 64"
    and dl: "parseInt16 l64 = Num L" "L < 2 ^ 53" "length d \<le> 2 * L"
    and bv: "BigInt_string (''0x'' @ v64) = Inr val"
  shows "decodeLoop p (Num off0) acc =
           Inr (acc @ [\<lparr> ms_operation = parseInt16 o2, ms_to = ''0x'' @ t40, ms_value = val,
                        ms_data = ''0x'' @ d \<rparr>])"
proof -
  have lt: "off0 < length p" using p len by simp
  have s1: "slice_js p off0 (Num (off0 + 2)) = o2"
    using len by (simp add: slice_js_def p)
  have s2: "slice_js p (off0 + 2) (Num (off0 + 42)) = t40"
    using len by (simp add: slice_js_def p)
  have s3: "slice_js p (off0 + 42) (Num (off0 + 106)) = v64"
    using len by (simp add: slice_js_def p)
  have s4: "slice_js p (off0 + 106) (Num (off0 + 170)) = l64"
    using len by (simp add: slice_js_def p)
  have big: "(2::nat) ^ 54 \<le> 2 ^ 1024" by (rule power_increasing) simp_all
  have "2 * L < 2 ^ 54" using dl(2) by simp
  then have small: "\<not> 2 ^ 1024 \<le> 2 * L" using big by linarith
  have n: "nextOffset p off0 = Num (off0 + 170 + 2 * L)"
    using small by (simp add: nextOffset_def s4 dl(1))
  have s5: "slice_js p (off0 + 170) (Num (off0 + 170 + 2 * L)) = d"
    using len dl(3) by (simp add: slice_js_def p)
  have r: "recordAt p off0 val =
             \<lparr> ms_operation = parseInt16 o2, ms_to = ''0x'' @ t40, ms_value = val,
               ms_data = ''0x'' @ d \<rparr>"
    by (simp only: recordAt_def n s1 s2 s5)
  have fin: "\<not> off0 + 170 + 2 * L < length p"
    using len dl(3) by (simp add: p)
  show ?thesis
    by (simp only: decodeLoop_step [OF lt] s3 bv sum.case n r decodeLoop_end [OF fin])
qed

lemma cut_payload_call:
  "encodeMultiSendCall (0 # replicate 20 17 @ be32 0 @ be32 4 @ [171, 205]) =
     ''0x8d80ff0a000000000000000000000000000000000000000000000000000000'' @
     ''0000000020000000000000000000000000000000000000000000000000000000'' @
     ''0000000057001111111111111111111111111111111111111111000000000000'' @
     ''0000000000000000000000000000000000000000000000000000000000000000'' @
     ''0000000000000000000000000000000000000000000000000004abcd00000000'' @
     ''0000000000''"
  by code_simp


text \<open>
  C3 (as amended). \<open>decodeMultiSend\<close> never throws. It returns \<open>null\<close> whenever the
  library does not recognise the call as \<open>multiSend(bytes)\<close>, in particular whenever the
  first four bytes are not its selector; and it returns \<open>null\<close> when the record walk
  reaches the end of the packed payload before a record's value field begins (the value
  text is then empty and \<open>BigInt\<close> throws), so a batch whose last record is cut within
  its operation or target bytes is rejected.
\<close>

theorem C3_decode_failures:
  "(\<forall>e. decodeFunctionData_MULTISEND data = Inl e \<longrightarrow> decodeMultiSend data = None)
   \<and> (take 10 data \<noteq> MULTISEND_SELECTOR \<longrightarrow> decodeMultiSend data = None \<and> \<not> isMultiSend data)
   \<and> (\<forall>p off0 acc. off0 < length p \<and> length p \<le> off0 + 42 \<longrightarrow>
          decodeLoop p (Num off0) acc = Inl (cannotConvert ''0x''))
   \<and> (\<forall>scs part. list_all wellFormed scs \<and> part \<noteq> [] \<and> length part \<le> 21
          \<and> length (encodePacked scs @ part) < 2 ^ 256 \<longrightarrow>
          decodeMultiSend (encodeMultiSendCall (encodePacked scs @ part)) = None)"
proof (intro conjI allI impI)
  fix e assume "decodeFunctionData_MULTISEND data = Inl e"
  then show "decodeMultiSend data = None" by (simp add: decodeMultiSend_def)
next
  assume "take 10 data \<noteq> MULTISEND_SELECTOR"
  from not_wrapper_throws [OF this] obtain e where "decodeFunctionData_MULTISEND data = Inl e" ..
  then show "decodeMultiSend data = None" "\<not> isMultiSend data"
    by (simp_all add: decodeMultiSend_def isMultiSend_def)
next
  fix p :: string and off0 acc
  assume "off0 < length p \<and> length p \<le> off0 + 42"
  then show "decodeLoop p (Num off0) acc = Inl (cannotConvert ''0x'')"
    using decodeLoop_no_value by blast
next
  fix scs and part :: "byte list"
  assume "list_all wellFormed scs \<and> part \<noteq> [] \<and> length part \<le> 21
          \<and> length (encodePacked scs @ part) < 2 ^ 256"
  then show "decodeMultiSend (encodeMultiSendCall (encodePacked scs @ part)) = None"
    using decodeMultiSend_cut_before_value by blast
qed

theorem C3_witness:
  "take 10 ''0xa9059cbb00'' \<noteq> MULTISEND_SELECTOR
   \<and> decodeMultiSend ''0xa9059cbb00'' = None
   \<and> list_all wellFormed [] \<and> [0 :: byte] \<noteq> [] \<and> length [0 :: byte] \<le> 21
   \<and> length (encodePacked [] @ [0 :: byte]) < 2 ^ 256
   \<and> decodeMultiSend (encodeMultiSendCall (encodePacked [] @ [0])) = None"
proof -
  have a: "take 10 ''0xa9059cbb00'' \<noteq> MULTISEND_SELECTOR"
    by (simp add: MULTISEND_SELECTOR_def)
  have b: "list_all wellFormed [] \<and> [0 :: byte] \<noteq> [] \<and> length [0 :: byte] \<le> 21
           \<and> length (encodePacked [] @ [0 :: byte]) < 2 ^ 256"
    by (simp add: encodePacked_def)
  note T = C3_decode_failures [of "''0xa9059cbb00''"]
  have c: "decodeMultiSend ''0xa9059cbb00'' = None"
    using T a by blast
  have d: "decodeMultiSend (encodeMultiSendCall (encodePacked [] @ [0])) = None"
    by (rule T [THEN conjunct2, THEN conjunct2, THEN conjunct2, rule_format]) (rule b)
  show ?thesis using a b c d by blast
qed

text \<open>
  The claim fails on a record whose payload is cut short. The call below is a well-formed
  \<open>multiSend(bytes)\<close> call whose 87 packed bytes hold one record: operation \<open>00\<close>, target
  \<open>11\<dots>11\<close>, value \<open>0\<close>, declared payload length \<open>4\<close>, and only the two payload bytes
  \<open>ab cd\<close>. The walk ends at offset 180 of a text of length 176, beyond the buffer;
  \<open>slice\<close> returns the digits that are there, nothing throws, and the record is returned.
\<close>

theorem C3_counterexample:
  "decodeMultiSend
     (''0x8d80ff0a000000000000000000000000000000000000000000000000000000'' @
      ''0000000020000000000000000000000000000000000000000000000000000000'' @
      ''0000000057001111111111111111111111111111111111111111000000000000'' @
      ''0000000000000000000000000000000000000000000000000000000000000000'' @
      ''0000000000000000000000000000000000000000000000000004abcd00000000'' @
      ''0000000000'')
   = Some [\<lparr> ms_operation = Num 0, ms_to = ''0x1111111111111111111111111111111111111111'',
             ms_value = 0, ms_data = ''0xabcd'' \<rparr>]
   \<and> decodeMultiSend
     (''0x8d80ff0a000000000000000000000000000000000000000000000000000000'' @
      ''0000000020000000000000000000000000000000000000000000000000000000'' @
      ''0000000057001111111111111111111111111111111111111111000000000000'' @
      ''0000000000000000000000000000000000000000000000000000000000000000'' @
      ''0000000000000000000000000000000000000000000000000004abcd00000000'' @
      ''0000000000'') \<noteq> None"
proof -
  let ?bytes = "0 # replicate 20 17 @ be32 0 @ be32 4 @ [171, 205 :: byte]"
  have l: "length ?bytes < 2 ^ 256" by simp
  have p: "bytesToHex ?bytes = ''0x'' @ hexDigits [0] @ hexDigits (replicate 20 17)
             @ hexDigits (be32 0) @ hexDigits (be32 4) @ hexDigits [171, 205]"
    by (simp add: bytesToHex_def hexDigits_Cons)
  have loop: "decodeLoop (bytesToHex ?bytes) (Num 2) [] =
      Inr ([] @ [\<lparr> ms_operation = parseInt16 (hexDigits [0]),
                     ms_to = ''0x'' @ hexDigits (replicate 20 17), ms_value = int 0,
                     ms_data = ''0x'' @ hexDigits [171, 205] \<rparr>])"
    by (rule decodeLoop_short_payload [OF p _ _ _ _ _ parseInt16_be32 _ _ BigInt_string_be32])
       simp_all
  have h: "hexDigits (replicate 20 17) = ''1111111111111111111111111111111111111111''"
    "hexDigits [171, 205] = ''abcd''"
    by code_simp+
  have r: "decodeMultiSend (encodeMultiSendCall ?bytes)
            = Some [\<lparr> ms_operation = Num 0, ms_to = ''0x1111111111111111111111111111111111111111'',
                      ms_value = 0, ms_data = ''0xabcd'' \<rparr>]"
    using loop
    by (simp add: decodeMultiSend_def decodeFunctionData_encoded [OF l] parseInt16_byte h)
  show ?thesis
    using r by (simp only: cut_payload_call) simp
qed

section \<open>Owner and threshold modifications, direct and nested\<close>

text \<open>
  The spec's account of a detection, written on its own: a call whose selector is one of
  the four is a hit at depth 0; if the outer call does not match but is a batch, a hit at
  depth \<open>d\<close> in one of its sub-calls is a hit at depth \<open>d + 1\<close>.
\<close>

inductive ownerHit :: "string \<Rightarrow> nat \<Rightarrow> string \<Rightarrow> bool" where
  direct: "ownerFunctionOf data = Some fname \<Longrightarrow> ownerHit data 0 fname"
| nested: "ownerFunctionOf data = None \<Longrightarrow> decodeMultiSend data = Some txs \<Longrightarrow> tx \<in> set txs
           \<Longrightarrow> ownerHit (ms_data tx) d fname \<Longrightarrow> ownerHit data (Suc d) fname"

definition detection :: "string \<Rightarrow> nat \<Rightarrow> OwnerModificationDetection" where
  "detection fname depth = \<lparr> om_functionName = fname, om_isNested = (depth > 0), om_depth = depth \<rparr>"

lemma ownerFunctionOf_empty [simp]: "ownerFunctionOf [] = None" "ownerFunctionOf ''0x'' = None"
  by (simp_all add: ownerFunctionOf_def getFunctionSelector_def)

lemma ownerFunctionOf_iff:
  "ownerFunctionOf data = Some fname \<longleftrightarrow>
     length data \<ge> 10 \<and>
     (take 10 data = ''0x0d582f13'' \<and> fname = ''addOwnerWithThreshold''
      \<or> take 10 data = ''0xf8dc5dd9'' \<and> fname = ''removeOwner''
      \<or> take 10 data = ''0xe318b52b'' \<and> fname = ''swapOwner''
      \<or> take 10 data = ''0x694e80c3'' \<and> fname = ''changeThreshold'')"
proof (cases "data = [] \<or> data = ''0x'' \<or> length data < 10")
  case True
  then show ?thesis by (auto simp: ownerFunctionOf_def getFunctionSelector_def)
next
  case False
  then have "ownerFunctionOf data = map_of OWNER_MODIFICATION_SELECTORS (take 10 data)"
    by (simp add: ownerFunctionOf_def getFunctionSelector_def)
  then show ?thesis using False
    by (auto simp: OWNER_MODIFICATION_SELECTORS_def)
qed

lemma owner_check_direct:
  "ownerFunctionOf data = Some fname \<Longrightarrow> owner_checkTransactionData data depth = [detection fname depth]"
  by (subst owner_checkTransactionData.simps) (auto simp: detection_def)

lemma owner_check_nested:
  "ownerFunctionOf data = None \<Longrightarrow> decodeMultiSend data = Some txs \<Longrightarrow>
   owner_checkTransactionData data depth
     = concat (map (\<lambda>tx. owner_checkTransactionData (ms_data tx) (depth + 1)) txs)"
proof -
  assume a: "ownerFunctionOf data = None" "decodeMultiSend data = Some txs"
  have "data \<noteq> [] \<and> data \<noteq> ''0x''"
    using a(2) by (auto simp: decodeMultiSend_def decodeFunctionData_MULTISEND_def startsWith_def
                      MULTISEND_SELECTOR_def Let_def split: if_splits)
  then show ?thesis using a by (subst owner_checkTransactionData.simps) simp
qed

lemma owner_check_opaque:
  "ownerFunctionOf data = None \<Longrightarrow> decodeMultiSend data = None \<Longrightarrow>
   owner_checkTransactionData data depth = []"
  by (subst owner_checkTransactionData.simps) simp

lemma ownerHit_direct_iff:
  assumes "ownerFunctionOf data = Some f"
  shows "ownerHit data d n \<longleftrightarrow> d = 0 \<and> n = f"
proof
  assume "ownerHit data d n"
  then show "d = 0 \<and> n = f" using assms by cases simp_all
next
  assume "d = 0 \<and> n = f"
  then show "ownerHit data d n" using assms by (simp add: ownerHit.direct)
qed

lemma ownerHit_opaque:
  assumes "ownerFunctionOf data = None" "decodeMultiSend data = None"
  shows "\<not> ownerHit data d n"
proof
  assume "ownerHit data d n"
  then show False using assms by cases simp_all
qed

lemma ownerHit_nested_iff:
  assumes "ownerFunctionOf data = None" "decodeMultiSend data = Some txs"
  shows "ownerHit data d n \<longleftrightarrow> (\<exists>d' tx. d = Suc d' \<and> tx \<in> set txs \<and> ownerHit (ms_data tx) d' n)"
proof
  assume "ownerHit data d n"
  then show "\<exists>d' tx. d = Suc d' \<and> tx \<in> set txs \<and> ownerHit (ms_data tx) d' n"
    using assms by cases auto
next
  assume "\<exists>d' tx. d = Suc d' \<and> tx \<in> set txs \<and> ownerHit (ms_data tx) d' n"
  then obtain d' tx where "d = Suc d'" "tx \<in> set txs" "ownerHit (ms_data tx) d' n" by blast
  then show "ownerHit data d n"
    using ownerHit.nested [OF assms] by simp
qed

lemma owner_check_set:
  "set (owner_checkTransactionData data k) = {detection fname (k + d) | fname d. ownerHit data d fname}"
proof (induction data k rule: owner_checkTransactionData.induct)
  case (1 data depth)
  show ?case
  proof (cases "ownerFunctionOf data")
    case (Some fname)
    show ?thesis
      by (simp add: owner_check_direct [OF Some] ownerHit_direct_iff [OF Some])
  next
    case None
    show ?thesis
    proof (cases "decodeMultiSend data")
      case dn: None
      show ?thesis
        by (simp add: owner_check_opaque [OF None dn] ownerHit_opaque [OF None dn])
    next
      case (Some txs)
      have ne: "\<not> (data = [] \<or> data = ''0x'')"
        using Some by (auto simp: decodeMultiSend_def decodeFunctionData_MULTISEND_def
                          startsWith_def MULTISEND_SELECTOR_def Let_def split: if_splits)
      have IH: "set (owner_checkTransactionData (ms_data tx) (depth + 1))
                  = {detection fname (depth + 1 + d) | fname d. ownerHit (ms_data tx) d fname}"
        if "tx \<in> set txs" for tx
        using "1.IH" [OF ne None Some that] .
      have l: "set (owner_checkTransactionData data depth)
                 = (\<Union>tx \<in> set txs. set (owner_checkTransactionData (ms_data tx) (depth + 1)))"
        by (simp add: owner_check_nested [OF None Some])
      show ?thesis
      proof (intro set_eqI iffI)
        fix x assume "x \<in> set (owner_checkTransactionData data depth)"
        then obtain tx where tx: "tx \<in> set txs"
          and "x \<in> set (owner_checkTransactionData (ms_data tx) (depth + 1))"
          unfolding l by blast
        then obtain f d where x: "x = detection f (depth + 1 + d)" and h: "ownerHit (ms_data tx) d f"
          using IH [OF tx] by blast
        have "ownerHit data (Suc d) f"
          using ownerHit.nested [OF None Some tx h] .
        moreover have "x = detection f (depth + Suc d)" using x by simp
        ultimately show "x \<in> {detection fname (depth + d) | fname d. ownerHit data d fname}"
          by blast
      next
        fix x assume "x \<in> {detection fname (depth + d) | fname d. ownerHit data d fname}"
        then obtain f d where x: "x = detection f (depth + d)" and h: "ownerHit data d f"
          by blast
        from h obtain d' tx where d: "d = Suc d'" and tx: "tx \<in> set txs"
          and h': "ownerHit (ms_data tx) d' f"
          unfolding ownerHit_nested_iff [OF None Some] by blast
        have "x = detection f (depth + 1 + d')" using x d by simp
        then have "x \<in> set (owner_checkTransactionData (ms_data tx) (depth + 1))"
          using IH [OF tx] h' by blast
        then show "x \<in> set (owner_checkTransactionData data depth)"
          unfolding l using tx by blast
      qed
    qed
  qed
qed


lemma ownerFunctionOf_multiSend:
  "ownerFunctionOf (encodeMultiSendCall packed) = None"
proof -
  have t: "take 10 (encodeMultiSendCall packed) = ''0x8d80ff0a''"
    by (simp add: encodeMultiSendCall_def MULTISEND_SELECTOR_def)
  have "ownerFunctionOf (encodeMultiSendCall packed) \<noteq> Some f" for f
    unfolding ownerFunctionOf_iff t by simp
  then show ?thesis by (cases "ownerFunctionOf (encodeMultiSendCall packed)") auto
qed

lemma owner_check_batch:
  assumes "list_all wellFormed scs" "length (encodePacked scs) < 2 ^ 256"
  shows "owner_checkTransactionData (encodeMultiSendCall (encodePacked scs)) depth
           = concat (map (\<lambda>sc. owner_checkTransactionData (bytesToHex (sc_data sc)) (depth + 1)) scs)"
  by (simp add: owner_check_nested [OF ownerFunctionOf_multiSend decodeMultiSend_encoded [OF assms]]
        comp_def decodedOf_def)

lemma checkOwnerModifications_fields:
  "modifications (checkOwnerModifications data) = owner_checkTransactionData data 0
   \<and> modifiesOwners (checkOwnerModifications data) = (owner_checkTransactionData data 0 \<noteq> [])
   \<and> om_warningLevel (checkOwnerModifications data)
       = (if owner_checkTransactionData data 0 = [] then Info else Critical)
   \<and> om_warning (checkOwnerModifications data)
       = (if owner_checkTransactionData data 0 = [] then None
          else Some (''WARNING: This transaction modifies the owners or threshold of the Safe! Functions: ''
                 @ join_js '', '' (map om_functionName (owner_checkTransactionData data 0))
                 @ ''. Proceed with caution!''))"
  by (simp add: checkOwnerModifications_def Let_def)




end
